theory Spec2Isabelle
  imports Main "HOL-Library.Multiset"
begin

section \<open>The GSM interface of the alarm bridge\<close>

text \<open>
  A shallow embedding of \<^verbatim>\<open>paradox/interfaces/gsm_interface.py\<close>, class
  \<^verbatim>\<open>GSMInterface\<close>. Every method becomes a function on an explicit state record
  that holds the fields of the object, the counters of the transport calls made so
  far and the trace of the effects performed. The serial device, the configuration
  module and the comparison of \<^verbatim>\<open>SortableTuple\<close> are parameters, collected in an
  environment record. Calls of the logger are not effects of the model.
\<close>

subsection \<open>Python strings\<close>

text \<open>
  Text received from the modem is decoded as latin-1, one character per byte, so a
  Python string is a \<^typ>\<open>string\<close> here and encoding to latin-1 cannot fail.
\<close>

definition py_lower_char :: "char \<Rightarrow> char" where
  \<comment> \<open>\<^verbatim>\<open>str.lower\<close> on one character below U+0100: A to Z and the accented capitals
      U+00C0 to U+00DE (the sign U+00D7 apart) move up by 32, which sets bit 5.\<close>
  "py_lower_char c =
     (let n = (of_char c :: nat)
      in if (65 \<le> n \<and> n \<le> 90) \<or> (192 \<le> n \<and> n \<le> 222 \<and> n \<noteq> 215)
         then (case c of Char b0 b1 b2 b3 b4 b5 b6 b7 \<Rightarrow> Char b0 b1 b2 b3 b4 True b6 b7)
         else c)"

definition lower :: "string \<Rightarrow> string" where
  "lower s = map py_lower_char s"

definition str_space :: "char \<Rightarrow> bool" where
  \<comment> \<open>\<^verbatim>\<open>str.isspace\<close> below U+0100.\<close>
  "str_space c =
     (let n = (of_char c :: nat)
      in (9 \<le> n \<and> n \<le> 13) \<or> (28 \<le> n \<and> n \<le> 32) \<or> n = 133 \<or> n = 160)"

definition bytes_space :: "char \<Rightarrow> bool" where
  \<comment> \<open>The whitespace of \<^verbatim>\<open>bytes.strip\<close>: space, tab, newline, return, VT, FF.\<close>
  "bytes_space c = (let n = (of_char c :: nat) in (9 \<le> n \<and> n \<le> 13) \<or> n = 32)"

definition strip_with :: "(char \<Rightarrow> bool) \<Rightarrow> string \<Rightarrow> string" where
  "strip_with sp s = rev (dropWhile sp (rev (dropWhile sp s)))"

definition strip :: "string \<Rightarrow> string" where
  "strip s = strip_with str_space s"

definition bytes_strip :: "string \<Rightarrow> string" where
  "bytes_strip s = strip_with bytes_space s"

fun split_on :: "char \<Rightarrow> string \<Rightarrow> string list" where
  \<comment> \<open>\<^verbatim>\<open>s.split(c)\<close> with a separator of one character: never an empty list.\<close>
  "split_on c [] = [[]]"
| "split_on c (x # xs) =
     (if x = c then [] # split_on c xs
      else (case split_on c xs of
              [] \<Rightarrow> [[x]]
            | t # ts \<Rightarrow> (x # t) # ts))"

definition startswith :: "string \<Rightarrow> string \<Rightarrow> bool" where
  "startswith s p = (take (length p) s = p)"

text \<open>
  Text that did not come from the modem can hold any character. Such a string is a
  list of code points, each either one of the 256 that latin-1 has or a wider one,
  \<open>Wide n\<close> standing for U+0100 plus \<open>n\<close>. Encoding to latin-1 raises
  \<^verbatim>\<open>UnicodeEncodeError\<close> on a wide code point: \<open>None\<close> here.
\<close>

datatype uchar = Latin char | Wide nat

type_synonym unicode = "uchar list"

definition text_of :: "string \<Rightarrow> unicode" where
  "text_of s = map Latin s"

fun encode_latin1 :: "unicode \<Rightarrow> string option" where
  "encode_latin1 [] = Some []"
| "encode_latin1 (Latin c # rest) = map_option ((#) c) (encode_latin1 rest)"
| "encode_latin1 (Wide n # rest) = None"

subsection \<open>The binary heap of \<^verbatim>\<open>queue.PriorityQueue\<close>\<close>

text \<open>
  \<^verbatim>\<open>queue.PriorityQueue\<close> keeps its items in a list managed by \<^verbatim>\<open>heapq\<close>:
  \<^verbatim>\<open>put_nowait\<close> is \<^verbatim>\<open>heappush\<close> (the queue is unbounded), \<^verbatim>\<open>get(block=False)\<close>
  raises \<^verbatim>\<open>Empty\<close> on an empty list and is \<^verbatim>\<open>heappop\<close> otherwise. The functions
  below follow \<^verbatim>\<open>Lib/heapq.py\<close>; \<open>lt\<close> is the \<^verbatim>\<open><\<close> of the items.
\<close>

function siftdown_loop :: "('a \<Rightarrow> 'a \<Rightarrow> bool) \<Rightarrow> 'a list \<Rightarrow> nat \<Rightarrow> nat \<Rightarrow> 'a \<Rightarrow> 'a list" where
  "siftdown_loop lt heap startpos pos newitem =
     (if pos > startpos then
        (let parentpos = (pos - 1) div 2;
             parent = heap ! parentpos
         in if lt newitem parent
            then siftdown_loop lt (heap[pos := parent]) startpos parentpos newitem
            else heap[pos := newitem])
      else heap[pos := newitem])"
  by pat_completeness auto
termination
  by (relation "measure (\<lambda>(lt, heap, startpos, pos, newitem). pos)") auto

declare siftdown_loop.simps [simp del]

definition siftdown :: "('a \<Rightarrow> 'a \<Rightarrow> bool) \<Rightarrow> 'a list \<Rightarrow> nat \<Rightarrow> nat \<Rightarrow> 'a list" where
  "siftdown lt heap startpos pos = siftdown_loop lt heap startpos pos (heap ! pos)"

function siftup_loop :: "('a \<Rightarrow> 'a \<Rightarrow> bool) \<Rightarrow> 'a list \<Rightarrow> nat \<Rightarrow> nat \<Rightarrow> nat \<Rightarrow> 'a list \<times> nat" where
  "siftup_loop lt heap endpos pos childpos =
     (if childpos < endpos then
        (let rightpos = childpos + 1;
             childpos1 = (if rightpos < endpos \<and> \<not> lt (heap ! childpos) (heap ! rightpos)
                          then rightpos else childpos)
         in siftup_loop lt (heap[pos := heap ! childpos1]) endpos childpos1 (2 * childpos1 + 1))
      else (heap, pos))"
  by pat_completeness auto
termination
  by (relation "measure (\<lambda>(lt, heap, endpos, pos, childpos). endpos - childpos)") auto

declare siftup_loop.simps [simp del]

definition siftup :: "('a \<Rightarrow> 'a \<Rightarrow> bool) \<Rightarrow> 'a list \<Rightarrow> nat \<Rightarrow> 'a list" where
  "siftup lt heap pos =
     (let endpos = length heap;
          startpos = pos;
          newitem = heap ! pos
      in case siftup_loop lt heap endpos pos (2 * pos + 1) of
           (heap1, pos1) \<Rightarrow> siftdown lt (heap1[pos1 := newitem]) startpos pos1)"

definition heappush :: "('a \<Rightarrow> 'a \<Rightarrow> bool) \<Rightarrow> 'a list \<Rightarrow> 'a \<Rightarrow> 'a list" where
  "heappush lt heap item = siftdown lt (heap @ [item]) 0 (length heap)"

definition heappop :: "('a \<Rightarrow> 'a \<Rightarrow> bool) \<Rightarrow> 'a list \<Rightarrow> ('a \<times> 'a list) option" where
  \<comment> \<open>\<open>None\<close> on the empty list, where \<^verbatim>\<open>get(block=False)\<close> raises \<^verbatim>\<open>Empty\<close>.\<close>
  "heappop lt heap =
     (if heap = [] then None
      else (let lastelt = last heap;
                heap1 = butlast heap
            in if heap1 \<noteq> []
               then Some (heap1 ! 0, siftup lt (heap1[0 := lastelt]) 0)
               else Some (lastelt, heap1)))"

fun put_all :: "('a \<Rightarrow> 'a \<Rightarrow> bool) \<Rightarrow> 'a list \<Rightarrow> 'a list \<Rightarrow> 'a list" where
  \<comment> \<open>\<^verbatim>\<open>put_nowait\<close> of each item, in order.\<close>
  "put_all lt heap [] = heap"
| "put_all lt heap (x # xs) = put_all lt (heappush lt heap x) xs"

fun get_n :: "('a \<Rightarrow> 'a \<Rightarrow> bool) \<Rightarrow> nat \<Rightarrow> 'a list \<Rightarrow> 'a list" where
  \<comment> \<open>The items returned by up to \<open>n\<close> successive \<^verbatim>\<open>get(block=False)\<close>, stopping at \<^verbatim>\<open>Empty\<close>.\<close>
  "get_n lt 0 heap = []"
| "get_n lt (Suc n) heap =
     (case heappop lt heap of
        None \<Rightarrow> []
      | Some (x, heap1) \<Rightarrow> x # get_n lt n heap1)"

subsection \<open>State, environment and effects\<close>

record raw_event =
  major :: "int \<times> string"
  minor :: "int \<times> string"

datatype payload =
    Event_raw raw_event
  | Notify_args string unicode int

type_synonym work_item = "int \<times> string \<times> payload"

type_synonym timestamp = "nat \<times> nat \<times> nat \<times> nat \<times> nat \<times> nat"

datatype error = AttributeError | IndexError | ValueError

datatype pydata = Bytes string | Str string

datatype effect =
    Sleep nat
  | Serial_open
  | Port_write string
  | Port_in_waiting
  | Port_read nat
  | Port_close
  | Notify string string int
  | Control_zone string string
  | Control_partition string string
  | Control_output string string

text \<open>
  \<open>Sleep\<close> counts milliseconds. \<open>Notify\<close> is a call of the notification handler,
  the three \<open>Control\<close> effects are calls of the alarm, the others are operations of
  the serial port.
\<close>

record alarm_ops =
  control_zone :: "string \<Rightarrow> string \<Rightarrow> bool"
  control_partition :: "string \<Rightarrow> string \<Rightarrow> bool"
  control_output :: "string \<Rightarrow> string \<Rightarrow> bool"

record state =
  port :: "nat option"
  alarm :: "alarm_ops option"
  stop_running :: bool
  notification_handler :: "unit option"
  modem_connected :: bool
  queue :: "work_item list"
  n_open :: nat
  n_write :: nat
  n_waiting :: nat
  n_read :: nat
  trace :: "effect list"

text \<open>
  \<open>port\<close> is \<open>None\<close> as the class attribute is, or the number of the
  \<^verbatim>\<open>serial.Serial\<close> call that made the object. The four counters number the calls of
  the constructor, of \<^verbatim>\<open>write\<close>, of \<^verbatim>\<open>in_waiting\<close> and of \<^verbatim>\<open>read\<close>; the
  environment answers the k-th call of each: \<open>False\<close> or \<open>None\<close> where the call
  raises. The contacts of the configuration are telephone numbers and the names of
  the channels are identifiers: both are strings of latin-1 characters. The text of
  a notification is any text.
\<close>

record env =
  GSM_CONTACTS :: "string list"
  sortable_lt :: "work_item \<Rightarrow> work_item \<Rightarrow> bool"
  strptime :: "string \<Rightarrow> timestamp option"
  serial_open :: "nat \<Rightarrow> bool"
  port_write :: "nat \<Rightarrow> string \<Rightarrow> nat option"
  port_in_waiting :: "nat \<Rightarrow> nat option"
  port_read :: "nat \<Rightarrow> nat \<Rightarrow> string option"

definition name :: string where
  "name = ''gsm''"

definition INFO :: int where
  "INFO = 20"

definition CRITICAL :: int where
  "CRITICAL = 50"

definition initial :: state where
  \<comment> \<open>The object after \<^verbatim>\<open>__init__\<close>: the class attributes and an empty queue.\<close>
  "initial = \<lparr>port = None, alarm = None, stop_running = False, notification_handler = None,
              modem_connected = False, queue = [], n_open = 0, n_write = 0, n_waiting = 0,
              n_read = 0, trace = []\<rparr>"

definition emit :: "effect \<Rightarrow> state \<Rightarrow> state" where
  "emit e s = s\<lparr>trace := trace s @ [e]\<rparr>"

subsection \<open>Registration and the enqueue surface\<close>

definition set_alarm :: "alarm_ops \<Rightarrow> state \<Rightarrow> state" where
  "set_alarm a s = s\<lparr>alarm := Some a\<rparr>"

definition set_notify :: "state \<Rightarrow> state" where
  "set_notify s = s\<lparr>notification_handler := Some ()\<rparr>"

definition event :: "env \<Rightarrow> raw_event \<Rightarrow> state \<Rightarrow> state" where
  "event E raw s =
     (if fst (major raw) = 37 \<or>
         (fst (major raw) = 2 \<and> fst (minor raw) = 6) \<or>
         (fst (major raw) = 40 \<and> fst (minor raw) \<in> set [0, 1, 2, 3, 4, 5])
      then s\<lparr>queue := heappush (sortable_lt E) (queue s) (2, ''event'', Event_raw raw)\<rparr>
      else s)"

definition change :: "string \<Rightarrow> string \<Rightarrow> string \<Rightarrow> string \<Rightarrow> state \<Rightarrow> state" where
  "change element label property v s = s"

definition notify :: "env \<Rightarrow> string \<Rightarrow> unicode \<Rightarrow> int \<Rightarrow> state \<Rightarrow> state" where
  "notify E source message level s =
     (if source = name then s
      else if level < CRITICAL then s
      else s\<lparr>queue := heappush (sortable_lt E) (queue s)
                         (2, ''notify'', Notify_args source message level)\<rparr>)"

subsection \<open>The connection manager and the write primitive\<close>

definition crlf :: string where
  "crlf = [CHR 0x0D, CHR 0x0A]"

definition commands :: "string list" where
  \<open>commands = [''AT'', ''ATE0'', ''AT+CMGF=1'', ''AT+CNMI=1,2,0,0,0'', ''AT+CUSD=1,"*111#"'']\<close>

fun write_commands :: "env \<Rightarrow> string list \<Rightarrow> state \<Rightarrow> bool \<times> state" where
  \<comment> \<open>The \<^verbatim>\<open>for\<close> loop of \<^verbatim>\<open>connected\<close>: \<open>False\<close> as soon as a write returns 0 or
      raises, \<open>True\<close> when every command was written.\<close>
  "write_commands E [] s = (True, s)"
| "write_commands E (command # rest) s =
     (let s1 = emit (Port_write command) (s\<lparr>n_write := n_write s + 1\<rparr>)
      in case port_write E (n_write s) command of
           None \<Rightarrow> (False, s1)
         | Some n \<Rightarrow> if n = 0 then (False, s1) else write_commands E rest s1)"

definition connected :: "env \<Rightarrow> state \<Rightarrow> bool \<times> state" where
  "connected E s =
     (if \<not> modem_connected s then
        (let s1 = emit Serial_open (s\<lparr>n_open := n_open s + 1\<rparr>)
         in if serial_open E (n_open s) then
              (case write_commands E commands (s1\<lparr>port := Some (n_open s)\<rparr>) of
                 (ok, s2) \<Rightarrow> if ok then (True, s2\<lparr>modem_connected := True\<rparr>) else (False, s2))
            else (False, s1))
      else (True, s))"

partial_function (option) drain :: "env \<Rightarrow> string \<Rightarrow> state \<Rightarrow> ((string + string) \<times> state) option" where
  \<comment> \<open>\<^verbatim>\<open>while self.port.in_waiting > 0: data += self.port.read()\<close>. The result is
      \<open>Inl\<close> of the bytes read so far when a call raises, \<open>Inr\<close> of all bytes when the
      loop ends, and \<open>None\<close> when the device never stops having bytes waiting.\<close>
  "drain E data s =
     (let s1 = emit Port_in_waiting (s\<lparr>n_waiting := n_waiting s + 1\<rparr>)
      in case port_in_waiting E (n_waiting s) of
           None \<Rightarrow> Some (Inl data, s1)
         | Some n \<Rightarrow>
             if n > 0 then
               (let s2 = emit (Port_read 1) (s1\<lparr>n_read := n_read s1 + 1\<rparr>)
                in case port_read E (n_read s1) 1 of
                     None \<Rightarrow> Some (Inl data, s2)
                   | Some b \<Rightarrow> drain E (data @ b) s2)
             else Some (Inr data, s1))"

declare drain.simps [code]

definition round_trip :: "env \<Rightarrow> unicode \<Rightarrow> state \<Rightarrow> ((string + string) \<times> state) option" where
  \<comment> \<open>The \<^verbatim>\<open>try\<close> block of \<^verbatim>\<open>write\<close>: \<open>Inl\<close> of the value of \<^verbatim>\<open>data\<close> when a call
      raises, \<open>Inr\<close> of the stripped and decoded answer when the block completes.
      Before anything is written the block raises on a port that is \<open>None\<close>
      (\<^verbatim>\<open>AttributeError\<close>) and on a message that latin-1 cannot encode
      (\<^verbatim>\<open>UnicodeEncodeError\<close>).\<close>
  "round_trip E message s1 =
     (case port s1 of
        None \<Rightarrow> Some (Inl [], s1)
      | Some h \<Rightarrow>
          (case encode_latin1 (message @ text_of crlf) of
             None \<Rightarrow> Some (Inl [], s1)
           | Some bytes \<Rightarrow>
               (let s2 = emit (Port_write bytes) (s1\<lparr>n_write := n_write s1 + 1\<rparr>)
                in case port_write E (n_write s1) bytes of
                     None \<Rightarrow> Some (Inl [], s2)
                   | Some n \<Rightarrow>
                       (case drain E [] (emit (Sleep 100) s2) of
                          None \<Rightarrow> None
                        | Some (Inl data, s3) \<Rightarrow> Some (Inl data, s3)
                        | Some (Inr data, s3) \<Rightarrow> Some (Inr (bytes_strip data), s3)))))"

definition write_modem :: "env \<Rightarrow> unicode \<Rightarrow> state \<Rightarrow> (pydata \<times> state) option" where
  \<comment> \<open>The method \<^verbatim>\<open>write\<close>. After an exception the value returned is still the
      \<^verbatim>\<open>bytes\<close> object, otherwise it is the decoded string.\<close>
  "write_modem E message s =
     (case connected E s of
        (ok, s1) \<Rightarrow>
          if \<not> ok then Some (Bytes [], s1)
          else (case round_trip E message s1 of
                  None \<Rightarrow> None
                | Some (Inl data, s2) \<Rightarrow> Some (Bytes data, s2\<lparr>modem_connected := False\<rparr>)
                | Some (Inr text, s2) \<Rightarrow> Some (Str text, s2)))"

subsection \<open>The outbound notifier and the queue step\<close>

definition send_sms :: "env \<Rightarrow> unicode \<Rightarrow> unicode \<Rightarrow> state \<Rightarrow> state option" where
  \<open>send_sms E dst message s =
     (case write_modem E (text_of ''AT+CMGS="'' @ dst @ text_of ''"'') s of
        None \<Rightarrow> None
      | Some (d1, s1) \<Rightarrow>
          (case write_modem E message s1 of
             None \<Rightarrow> None
           | Some (d2, s2) \<Rightarrow>
               (case write_modem E (text_of (CHR 0x1A # crlf)) s2 of
                  None \<Rightarrow> None
                | Some (d3, s3) \<Rightarrow> Some s3)))\<close>

fun send_sms_each :: "env \<Rightarrow> string list \<Rightarrow> unicode \<Rightarrow> state \<Rightarrow> state option" where
  "send_sms_each E [] message s = Some s"
| "send_sms_each E (dst # rest) message s =
     (case send_sms E (text_of dst) message s of
        None \<Rightarrow> None
      | Some s1 \<Rightarrow> send_sms_each E rest message s1)"

definition send_message :: "env \<Rightarrow> unicode \<Rightarrow> state \<Rightarrow> state option" where
  "send_message E message s =
     (if port s = None then Some s
      else send_sms_each E (GSM_CONTACTS E) message s)"

fun dial_each :: "env \<Rightarrow> string list \<Rightarrow> state \<Rightarrow> state option" where
  "dial_each E [] s = Some s"
| "dial_each E (contact # rest) s =
     (case write_modem E (text_of (''ATD'' @ contact)) s of
        None \<Rightarrow> None
      | Some (d, s1) \<Rightarrow> dial_each E rest s1)"

definition handle_event :: "env \<Rightarrow> payload \<Rightarrow> state \<Rightarrow> state option" where
  "handle_event E raw s = dial_each E (GSM_CONTACTS E) s"

definition handle_change :: "payload \<Rightarrow> state \<Rightarrow> state" where
  "handle_change raw s = s"

definition run_loop :: "env \<Rightarrow> state \<Rightarrow> (bool \<times> state) option" where
  \<comment> \<open>A \<^verbatim>\<open>notify\<close> item whose payload is not a tuple raises inside the \<^verbatim>\<open>try\<close>; the
      exception is logged and the method returns \<^verbatim>\<open>True\<close> as on every path.\<close>
  "run_loop E s =
     (case heappop (sortable_lt E) (queue s) of
        None \<Rightarrow> Some (True, s)
      | Some (item, q) \<Rightarrow>
          (let s1 = s\<lparr>queue := q\<rparr>
           in if fst (snd item) = ''change'' then Some (True, handle_change (snd (snd item)) s1)
              else if fst (snd item) = ''event'' then
                map_option (Pair True) (handle_event E (snd (snd item)) s1)
              else if fst (snd item) = ''notify'' then
                (case snd (snd item) of
                   Notify_args source message level \<Rightarrow>
                     map_option (Pair True)
                       (send_message E (text_of (source @ '': '') @ message) s1)
                 | Event_raw raw \<Rightarrow> Some (True, s1))
              else Some (True, s1)))"

subsection \<open>The SMS command processor\<close>

definition normalize_payload :: "string \<Rightarrow> string option" where
  "normalize_payload message0 =
     (let message = lower (strip message0)
      in if message \<in> set [''true'', ''on'', ''1'', ''enable''] then Some ''on''
         else if message \<in> set [''false'', ''off'', ''0'', ''disable''] then Some ''off''
         else if message \<in> set [''pulse'', ''arm'', ''disarm'', ''arm_stay'', ''arm_sleep'',
                                 ''bypass'', ''clear_bypass''] then Some message
         else None)"

definition send_command :: "string \<Rightarrow> state \<Rightarrow> bool option \<times> state" where
  \<comment> \<open>The first component is the value returned: \<open>None\<close> is Python's \<^verbatim>\<open>None\<close>, which
      every \<^verbatim>\<open>return\<close> of the method and the end of its body give. The answer of the
      alarm only chooses a log line.\<close>
  "send_command message s =
     (let tokens = split_on CHR '' '' message
      in if length tokens \<noteq> 3 then (None, s)
         else (case alarm s of
                 None \<Rightarrow> (None, s)
               | Some a \<Rightarrow>
                   (let element_type = lower (tokens ! 0);
                        element = tokens ! 1;
                        command = normalize_payload (tokens ! 2)
                    in if element_type = ''zone'' then
                         (case command of
                            None \<Rightarrow> (None, s)
                          | Some c \<Rightarrow>
                              if c \<notin> set [''bypass'', ''clear_bypass''] then (None, s)
                              else (let refused = \<not> control_zone a element c
                                    in (None, emit (Control_zone element c) s)))
                       else if element_type = ''partition'' then
                         (case command of
                            None \<Rightarrow> (None, s)
                          | Some c \<Rightarrow>
                              if c \<notin> set [''arm'', ''disarm'', ''arm_stay'', ''arm_sleep'']
                              then (None, s)
                              else (let refused = \<not> control_partition a element c
                                    in (None, emit (Control_partition element c) s)))
                       else if element_type = ''output'' then
                         (case command of
                            None \<Rightarrow> (None, s)
                          | Some c \<Rightarrow>
                              if c \<notin> set [''on'', ''off'', ''pulse''] then (None, s)
                              else (let refused = \<not> control_output a element c
                                    in (None, emit (Control_output element c) s)))
                       else (None, s))))"

definition truthy :: "bool option \<Rightarrow> bool" where
  "truthy ret = (ret = Some True)"

definition handler_notify :: "string \<Rightarrow> string \<Rightarrow> int \<Rightarrow> state \<Rightarrow> (error + unit) \<times> state" where
  \<comment> \<open>\<^verbatim>\<open>self.notification_handler.notify(source, message, level)\<close>: an
      \<^verbatim>\<open>AttributeError\<close> while no handler is registered.\<close>
  "handler_notify source message level s =
     (case notification_handler s of
        None \<Rightarrow> (Inl AttributeError, s)
      | Some h \<Rightarrow> (Inr (), emit (Notify source message level) s))"

definition handle_message ::
  "env \<Rightarrow> timestamp \<Rightarrow> string \<Rightarrow> string \<Rightarrow> state \<Rightarrow> ((error + unit) \<times> state) option" where
  "handle_message E timestamp source message s =
     (if alarm s = None then Some (Inr (), s)
      else (case handler_notify name (source @ '': '' @ message) INFO s of
              (Inl e, s1) \<Rightarrow> Some (Inl e, s1)
            | (Inr u, s1) \<Rightarrow>
                if source \<in> set (GSM_CONTACTS E) then
                  (case send_command message s1 of
                     (ret, s2) \<Rightarrow>
                       if truthy ret then
                         (case send_sms E (text_of source) (text_of (''ACCEPTED: '' @ message)) s2 of
                            None \<Rightarrow> None
                          | Some s3 \<Rightarrow>
                              Some (handler_notify name
                                      (''ACCEPTED: '' @ source @ '': '' @ message) INFO s3))
                       else
                         (case send_sms E (text_of source) (text_of (''REJECTED: '' @ message)) s2 of
                            None \<Rightarrow> None
                          | Some s3 \<Rightarrow>
                              Some (handler_notify name
                                      (''REJECTED: '' @ source @ '': '' @ message) INFO s3)))
                else Some (handler_notify name
                             (''REJECTED: '' @ source @ '': '' @ message) INFO s1)))"

subsection \<open>Stopping and the worker loop\<close>

definition stop :: "state \<Rightarrow> (error + unit) \<times> state" where
  \<comment> \<open>\<^verbatim>\<open>self.port.close()\<close> is an \<^verbatim>\<open>AttributeError\<close> while \<open>port\<close> is \<open>None\<close>.\<close>
  "stop s =
     (let s1 = s\<lparr>stop_running := True\<rparr>
      in case port s1 of
           None \<Rightarrow> (Inl AttributeError, s1)
         | Some h \<Rightarrow> (Inr (), emit Port_close s1))"

partial_function (option) reconnect_wait :: "env \<Rightarrow> state \<Rightarrow> state option" where
  \<comment> \<open>\<^verbatim>\<open>while not self.connected() and self.stop_running.isSet(): time.sleep(10)\<close>\<close>
  "reconnect_wait E s =
     (case connected E s of
        (ok, s1) \<Rightarrow>
          if \<not> ok \<and> stop_running s1 then reconnect_wait E (emit (Sleep 10000) s1)
          else Some s1)"

declare reconnect_wait.simps [code]

definition inbound :: "env \<Rightarrow> string \<Rightarrow> state \<Rightarrow> ((error + unit) \<times> state) option" where
  \<comment> \<open>The branch of \<^verbatim>\<open>run\<close> for a non-empty read, up to the \<^verbatim>\<open>except\<close>.\<close>
  \<open>inbound E data s =
     (let tokens = map strip (split_on CHR 0x22 (strip data))
      in if tokens ! 0 = ''+CMT:'' then
           (if length tokens \<le> 1 then Some (Inl IndexError, s)
            else if length tokens \<le> 5 then Some (Inl IndexError, s)
            else (case strptime E (split_on CHR ''+'' (tokens ! 5) ! 0) of
                    None \<Rightarrow> Some (Inl ValueError, s)
                  | Some timestamp \<Rightarrow>
                      if length tokens \<le> 6 then Some (Inl IndexError, s)
                      else handle_message E timestamp (tokens ! 1) (tokens ! 6) s))
         else if startswith (tokens ! 0) ''+CUSD:'' then
           (if notification_handler s = None then Some (Inl AttributeError, s)
            else if length tokens \<le> 1 then Some (Inl IndexError, s)
            else Some (handler_notify name (tokens ! 1) INFO s))
         else Some (Inr (), s))\<close>

definition run_body :: "env \<Rightarrow> state \<Rightarrow> state option" where
  \<comment> \<open>One iteration of the \<^verbatim>\<open>while\<close> loop of \<^verbatim>\<open>run\<close>, entered while the stop flag
      is clear. The flag belongs to another thread, so the inner loop reads it from
      the state again. Every exception of the \<^verbatim>\<open>try\<close> block ends in
      \<^verbatim>\<open>self.modem_connected = False\<close>.\<close>
  "run_body E s =
     (case reconnect_wait E (emit (Sleep 1000) s) of
        None \<Rightarrow> None
      | Some s1 \<Rightarrow>
          (case port s1 of
             None \<Rightarrow> Some (s1\<lparr>modem_connected := False\<rparr>)
           | Some h \<Rightarrow>
               (let s2 = emit (Port_read 200) (s1\<lparr>n_read := n_read s1 + 1\<rparr>)
                in case port_read E (n_read s1) 200 of
                     None \<Rightarrow> Some (s2\<lparr>modem_connected := False\<rparr>)
                   | Some data \<Rightarrow>
                       if length data > 0 then
                         (case inbound E data s2 of
                            None \<Rightarrow> None
                          | Some (Inl e, s3) \<Rightarrow> Some (s3\<lparr>modem_connected := False\<rparr>)
                          | Some (Inr u, s3) \<Rightarrow> Some s3)
                       else map_option snd (run_loop E s2))))"

subsection \<open>Concrete collaborators and devices\<close>

definition priority_lt :: "work_item \<Rightarrow> work_item \<Rightarrow> bool" where
  \<comment> \<open>Modelled from the spec: \<^verbatim>\<open>SortableTuple\<close> of \<^verbatim>\<open>paradox.lib.utils\<close> is not among the
      sources. "Lower priority value dequeues first": the tuples compare by their
      first component.\<close>
  "priority_lt a b = (fst a < fst b)"

fun str_lt :: "string \<Rightarrow> string \<Rightarrow> bool" where
  \<comment> \<open>\<^verbatim>\<open><\<close> of Python strings: lexicographic by code point.\<close>
  "str_lt [] [] = False"
| "str_lt [] (y # ys) = True"
| "str_lt (x # xs) [] = False"
| "str_lt (x # xs) (y # ys) =
     ((of_char x :: nat) < of_char y \<or> (x = y \<and> str_lt xs ys))"

definition priority_kind_lt :: "work_item \<Rightarrow> work_item \<Rightarrow> bool" where
  \<comment> \<open>Modelled from the spec: \<^verbatim>\<open>SortableTuple\<close> of \<^verbatim>\<open>paradox.lib.utils\<close> is not among the
      sources. "Ordering is by (priority, kind, insertion order)": the tuples built by
      \<^verbatim>\<open>event\<close> and \<^verbatim>\<open>notify\<close> hold a priority, a kind and a payload and no insertion
      number, so this comparison reads the priority and then the kind.\<close>
  "priority_kind_lt a b =
     (fst a < fst b \<or> (fst a = fst b \<and> str_lt (fst (snd a)) (fst (snd b))))"

definition accepting :: alarm_ops where
  "accepting = \<lparr>control_zone = (\<lambda>label action. True),
                 control_partition = (\<lambda>label action. True),
                 control_output = (\<lambda>label action. True)\<rparr>"

definition healthy :: env where
  \<comment> \<open>A modem that opens, takes every write and has nothing to say.\<close>
  "healthy = \<lparr>GSM_CONTACTS = [''+15550100''], sortable_lt = priority_lt,
               strptime = (\<lambda>text. None), serial_open = (\<lambda>k. True),
               port_write = (\<lambda>k bytes. Some (length bytes)),
               port_in_waiting = (\<lambda>k. Some 0), port_read = (\<lambda>k n. Some [])\<rparr>"

definition healthy_by_kind :: env where
  \<comment> \<open>The same modem with the other comparison of the queue items.\<close>
  "healthy_by_kind = healthy\<lparr>sortable_lt := priority_kind_lt\<rparr>"

definition unplugged :: env where
  \<comment> \<open>A modem that opens once and is then removed: reads raise, opening raises.\<close>
  "unplugged = healthy\<lparr>serial_open := (\<lambda>k. k = 0), port_read := (\<lambda>k n. None)\<rparr>"


definition ready :: state where
  \<comment> \<open>The object after \<^verbatim>\<open>set_alarm\<close> and \<^verbatim>\<open>set_notify\<close>.\<close>
  "ready = set_notify (set_alarm accepting initial)"

definition fire :: raw_event where
  "fire = \<lparr>major = (37, ''Special alarm''), minor = (0, ''Fire'')\<rparr>"

definition panic :: raw_event where
  "panic = \<lparr>major = (37, ''Special alarm''), minor = (1, ''Panic'')\<rparr>"

subsection \<open>What the transport leaves alone\<close>

fun is_port_effect :: "effect \<Rightarrow> bool" where
  "is_port_effect (Notify source message level) = False"
| "is_port_effect (Control_zone label action) = False"
| "is_port_effect (Control_partition label action) = False"
| "is_port_effect (Control_output label action) = False"
| "is_port_effect e = True"

fun is_alarm_call :: "effect \<Rightarrow> bool" where
  "is_alarm_call (Control_zone label action) = True"
| "is_alarm_call (Control_partition label action) = True"
| "is_alarm_call (Control_output label action) = True"
| "is_alarm_call e = False"

fun is_notify :: "effect \<Rightarrow> bool" where
  "is_notify (Notify source message level) = True"
| "is_notify e = False"

definition port_only :: "state \<Rightarrow> state \<Rightarrow> bool" where
  \<comment> \<open>From the first state to the second only the port, the connection flag and the
      counters changed, and only operations of the port and sleeps were added to the
      trace.\<close>
  "port_only s t =
     (alarm t = alarm s \<and> notification_handler t = notification_handler s \<and>
      stop_running t = stop_running s \<and> queue t = queue s \<and>
      (\<exists>es. trace t = trace s @ es \<and> list_all is_port_effect es))"

definition quiescent :: "env \<Rightarrow> bool" where
  \<comment> \<open>The device cannot keep bytes waiting for ever: after any number of calls,
      \<^verbatim>\<open>in_waiting\<close> will answer 0 or raise.\<close>
  "quiescent E =
     (\<forall>k. \<exists>j\<ge>k. port_in_waiting E j = None \<or> port_in_waiting E j = Some 0)"

subsection \<open>The device, as the claims speak of it\<close>

fun writes :: "effect list \<Rightarrow> string list" where
  \<comment> \<open>The byte strings given to \<^verbatim>\<open>port.write\<close>, in order.\<close>
  "writes [] = []"
| "writes (Port_write bytes # es) = bytes # writes es"
| "writes (e # es) = writes es"

definition works :: "env \<Rightarrow> bool" where
  \<comment> \<open>A device without failures: the port opens, every write is taken and reports
      at least one byte unless it was given none, \<^verbatim>\<open>in_waiting\<close> and \<^verbatim>\<open>read\<close> never
      raise, and the device does not keep bytes waiting for ever.\<close>
  "works E =
     ((\<forall>k. serial_open E k) \<and>
      (\<forall>k bytes. \<exists>n. port_write E k bytes = Some n \<and> (bytes \<noteq> [] \<longrightarrow> 0 < n)) \<and>
      (\<forall>k. port_in_waiting E k \<noteq> None) \<and> (\<forall>k n. port_read E k n \<noteq> None) \<and>
      quiescent E)"




section \<open>Properties\<close>

subsection \<open>The heap keeps its items\<close>

lemma siftdown_loop_length:
  "length (siftdown_loop lt heap startpos pos newitem) = length heap"
  by (induction lt heap startpos pos newitem rule: siftdown_loop.induct)
     (subst siftdown_loop.simps, simp add: Let_def)

lemma siftdown_loop_mset:
  "pos < length heap \<Longrightarrow>
   mset (siftdown_loop lt heap startpos pos newitem) = mset (heap[pos := newitem])"
proof (induction lt heap startpos pos newitem rule: siftdown_loop.induct)
  case (1 lt heap startpos pos newitem)
  show ?case
  proof (cases "pos > startpos \<and> lt newitem (heap ! ((pos - 1) div 2))")
    case True
    define pp where "pp = (pos - 1) div 2"
    have pp: "pp < pos" using True by (simp add: pp_def) arith
    have "mset (siftdown_loop lt (heap[pos := heap ! pp]) startpos pp newitem)
          = mset ((heap[pos := heap ! pp])[pp := newitem])"
      using "1.IH"[of pp "heap ! pp"] True pp "1.prems" by (simp add: pp_def)
    also have "\<dots> = mset (heap[pos := newitem])"
      using pp "1.prems" by (simp add: mset_update nth_list_update)
    finally show ?thesis
      using True by (subst siftdown_loop.simps) (simp add: pp_def Let_def)
  next
    case False
    then show ?thesis by (subst siftdown_loop.simps) (auto simp: Let_def)
  qed
qed

lemma heappush_mset: "mset (heappush lt heap item) = add_mset item (mset heap)"
  by (simp add: heappush_def siftdown_def siftdown_loop_mset)

lemma heappush_length: "length (heappush lt heap item) = Suc (length heap)"
  by (simp add: heappush_def siftdown_def siftdown_loop_length)

subsection \<open>The transport touches nothing but the port\<close>

lemma port_only_refl: "port_only s s"
  by (simp add: port_only_def)

lemma port_only_trans: "port_only s t \<Longrightarrow> port_only t u \<Longrightarrow> port_only s u"
  by (auto simp: port_only_def)

lemma port_only_emit: "is_port_effect e \<Longrightarrow> port_only s t \<Longrightarrow> port_only s (emit e t)"
  by (auto simp: port_only_def emit_def)

lemma port_only_fields:
  "port_only s t \<Longrightarrow> port_only s (t\<lparr>modem_connected := b\<rparr>)"
  "port_only s t \<Longrightarrow> port_only s (t\<lparr>port := p\<rparr>)"
  "port_only s t \<Longrightarrow> port_only s (t\<lparr>n_open := k\<rparr>)"
  "port_only s t \<Longrightarrow> port_only s (t\<lparr>n_write := k\<rparr>)"
  "port_only s t \<Longrightarrow> port_only s (t\<lparr>n_waiting := k\<rparr>)"
  "port_only s t \<Longrightarrow> port_only s (t\<lparr>n_read := k\<rparr>)"
  by (simp_all add: port_only_def)

lemma write_commands_port_only:
  "write_commands E cs s = (ok, t) \<Longrightarrow> port_only s0 s \<Longrightarrow> port_only s0 t"
proof (induction cs arbitrary: s)
  case Nil
  then show ?case by simp
next
  case (Cons c cs)
  have step: "port_only s0 (emit (Port_write c) (s\<lparr>n_write := n_write s + 1\<rparr>))"
    using Cons.prems(2) by (simp add: port_only_emit port_only_fields)
  show ?case
    using Cons.prems(1) Cons.IH[OF _ step] step
    by (auto simp: Let_def split: option.splits if_splits)
qed

lemma connected_port_only:
  "connected E s = (ok, t) \<Longrightarrow> port_only s t"
  by (auto simp: connected_def Let_def port_only_refl port_only_emit port_only_fields
           split: if_splits prod.splits
           dest!: write_commands_port_only[where ?s0.0 = s])

lemma drain_port_only_aux:
  assumes "drain E data s = Some rt"
  shows "\<forall>s0. port_only s0 s \<longrightarrow> port_only s0 (snd rt)"
  using assms
proof (induction rule: drain.raw_induct[rotated 1, consumes 1])
  case (1 drain' E data s rt)
  show ?case
  proof (intro allI impI)
    fix s0 assume s0: "port_only s0 s"
    have a: "port_only s0 (emit Port_in_waiting (s\<lparr>n_waiting := n_waiting s + 1\<rparr>))"
      using s0 by (simp add: port_only_emit port_only_fields)
    have b: "port_only s0 (emit (Port_read 1)
               ((emit Port_in_waiting (s\<lparr>n_waiting := n_waiting s + 1\<rparr>))
                  \<lparr>n_read := n_read (emit Port_in_waiting (s\<lparr>n_waiting := n_waiting s + 1\<rparr>)) + 1\<rparr>))"
      using a by (simp add: port_only_emit port_only_fields)
    show "port_only s0 (snd rt)"
      using "1.hyps" a b "1.IH"
      by (auto simp: Let_def split: option.splits if_splits)
  qed
qed


lemma drain_returns_aux:
  "port_in_waiting E j = None \<or> port_in_waiting E j = Some 0 \<Longrightarrow> n_waiting s \<le> j \<Longrightarrow>
   d = j - n_waiting s \<Longrightarrow> \<exists>rt. drain E data s = Some rt"
proof (induction d arbitrary: s data)
  case 0
  then have "n_waiting s = j" by simp
  then show ?case
    using "0.prems"(1) by (subst drain.simps) (auto simp: Let_def)
next
  case (Suc d)
  show ?case
  proof (cases "port_in_waiting E (n_waiting s)")
    case None
    then show ?thesis by (subst drain.simps) (simp add: Let_def)
  next
    case (Some n)
    show ?thesis
    proof (cases "n > 0")
      case False
      with Some show ?thesis by (subst drain.simps) (simp add: Let_def)
    next
      case True
      show ?thesis
      proof (cases "port_read E (n_read s) 1")
        case None
        with Some True show ?thesis
          by (subst drain.simps) (simp add: Let_def emit_def)
      next
        case (Some b)
        let ?s2 = "emit (Port_read 1)
               ((emit Port_in_waiting (s\<lparr>n_waiting := n_waiting s + 1\<rparr>))
                  \<lparr>n_read := n_read (emit Port_in_waiting (s\<lparr>n_waiting := n_waiting s + 1\<rparr>)) + 1\<rparr>)"
        have nw: "n_waiting ?s2 = n_waiting s + 1" by (simp add: emit_def)
        have "\<exists>rt. drain E (data @ b) ?s2 = Some rt"
          using Suc.IH[of ?s2 "data @ b"] Suc.prems nw by simp
        then show ?thesis
          using Some True \<open>port_in_waiting E (n_waiting s) = Some n\<close>
          by (subst drain.simps) (simp add: Let_def emit_def)
      qed
    qed
  qed
qed

lemma drain_returns: "quiescent E \<Longrightarrow> \<exists>rt. drain E data s = Some rt"
proof -
  assume "quiescent E"
  then obtain j where "j \<ge> n_waiting s" "port_in_waiting E j = None \<or> port_in_waiting E j = Some 0"
    unfolding quiescent_def by blast
  then show ?thesis using drain_returns_aux[of E j s "j - n_waiting s" data] by simp
qed

lemma round_trip_port_only:
  "round_trip E message s1 = Some (r, t) \<Longrightarrow> port_only s1 t"
proof -
  assume w: "round_trip E message s1 = Some (r, t)"
  have dr: "\<And>bytes r u.
      drain E [] (emit (Sleep 100) (emit (Port_write bytes) (s1\<lparr>n_write := n_write s1 + 1\<rparr>)))
        = Some (r, u) \<Longrightarrow> port_only s1 u"
  proof -
    fix bytes r u
    let ?s2 = "emit (Port_write bytes) (s1\<lparr>n_write := n_write s1 + 1\<rparr>)"
    assume d: "drain E [] (emit (Sleep 100) ?s2) = Some (r, u)"
    have "port_only s1 (emit (Sleep 100) ?s2)"
      by (simp add: port_only_refl port_only_emit port_only_fields)
    then show "port_only s1 u"
      using drain_port_only_aux[OF d] by simp
  qed
  have wr: "\<And>bytes. port_only s1 (emit (Port_write bytes) (s1\<lparr>n_write := n_write s1 + 1\<rparr>))"
    by (simp add: port_only_refl port_only_emit port_only_fields)
  show ?thesis
    using w wr dr
    by (auto simp: round_trip_def Let_def port_only_refl
             split: if_splits option.splits sum.splits prod.splits)
qed

lemma round_trip_returns:
  "quiescent E \<Longrightarrow> \<exists>r t. round_trip E message s1 = Some (r, t)"
proof -
  assume q: "quiescent E"
  show ?thesis
  proof (cases "port s1")
    case None
    then show ?thesis by (simp add: round_trip_def)
  next
    case (Some h)
    show ?thesis
    proof (cases "encode_latin1 (message @ text_of crlf)")
      case None
      with Some show ?thesis by (simp add: round_trip_def)
    next
      case enc: (Some bytes)
      let ?s2 = "emit (Port_write bytes) (s1\<lparr>n_write := n_write s1 + 1\<rparr>)"
      show ?thesis
      proof (cases "port_write E (n_write s1) bytes")
        case None
        with Some enc show ?thesis by (simp add: round_trip_def)
      next
        case wr: (Some n)
        obtain r u where d: "drain E [] (emit (Sleep 100) ?s2) = Some (r, u)"
          using drain_returns[OF q, of "[]" "emit (Sleep 100) ?s2"] by auto
        show ?thesis
          using Some enc wr d by (cases r) (simp_all add: round_trip_def)
      qed
    qed
  qed
qed

lemma write_modem_port_only:
  "write_modem E message s = Some (d, t) \<Longrightarrow> port_only s t"
proof -
  assume w: "write_modem E message s = Some (d, t)"
  obtain ok s1 where c: "connected E s = (ok, s1)"
    by (cases "connected E s")
  have s1: "port_only s s1"
    using c by (rule connected_port_only)
  have rt: "\<And>r u. round_trip E message s1 = Some (r, u) \<Longrightarrow> port_only s u"
    using round_trip_port_only s1 port_only_trans by blast
  show ?thesis
    using w c s1 rt
    by (auto simp: write_modem_def port_only_fields
             split: if_splits option.splits sum.splits prod.splits)
qed

lemma write_modem_returns:
  "quiescent E \<Longrightarrow> \<exists>d t. write_modem E message s = Some (d, t)"
proof -
  assume q: "quiescent E"
  obtain ok s1 where c: "connected E s = (ok, s1)"
    by (cases "connected E s")
  obtain r u where "round_trip E message s1 = Some (r, u)"
    using round_trip_returns[OF q] by blast
  then show ?thesis
    using c by (cases r) (auto simp: write_modem_def)
qed

lemma send_sms_port_only:
  "send_sms E dst message s = Some t \<Longrightarrow> port_only s t"
  by (auto simp: send_sms_def split: option.splits dest!: write_modem_port_only)
     (blast intro: port_only_trans)

lemma send_sms_returns:
  "quiescent E \<Longrightarrow> \<exists>t. send_sms E dst message s = Some t"
proof -
  assume q: "quiescent E"
  obtain d1 s1 where 1:
    "write_modem E (text_of (''AT+CMGS='' @ [CHR 0x22]) @ dst @ text_of [CHR 0x22]) s = Some (d1, s1)"
    using write_modem_returns[OF q] by blast
  obtain d2 s2 where 2: "write_modem E message s1 = Some (d2, s2)"
    using write_modem_returns[OF q] by blast
  obtain d3 s3 where 3: "write_modem E (text_of (CHR 0x1A # crlf)) s2 = Some (d3, s3)"
    using write_modem_returns[OF q] by blast
  show ?thesis using 1 2 3 by (simp add: send_sms_def)
qed

lemma port_only_alarm_calls:
  "port_only s t \<Longrightarrow> filter is_alarm_call (trace t) = filter is_alarm_call (trace s)"
proof -
  assume "port_only s t"
  then obtain es where es: "trace t = trace s @ es" "list_all is_port_effect es"
    by (auto simp: port_only_def)
  have "filter is_alarm_call es = []"
    using es(2) by (induction es) (auto elim: is_port_effect.elims)
  then show ?thesis using es(1) by simp
qed

lemma port_only_notifies:
  "port_only s t \<Longrightarrow> filter is_notify (trace t) = filter is_notify (trace s)"
proof -
  assume "port_only s t"
  then obtain es where es: "trace t = trace s @ es" "list_all is_port_effect es"
    by (auto simp: port_only_def)
  have "filter is_notify es = []"
    using es(2) by (induction es) (auto elim: is_port_effect.elims)
  then show ?thesis using es(1) by simp
qed

subsection \<open>What is written to the port\<close>

lemma writes_append: "writes (xs @ ys) = writes xs @ writes ys"
  by (induction xs rule: writes.induct) simp_all

lemma writes_map: "writes (map Port_write ws) = ws"
  by (induction ws) simp_all

lemma text_of_append: "text_of (a @ b) = text_of a @ text_of b"
  by (simp add: text_of_def)

lemma encode_text_of: "encode_latin1 (text_of s) = Some s"
  by (induction s) (simp_all add: text_of_def)

lemma drain_keeps_aux:
  assumes "drain E data s = Some rt"
  shows "port (snd rt) = port s \<and> modem_connected (snd rt) = modem_connected s \<and>
         writes (trace (snd rt)) = writes (trace s)"
  using assms
proof (induction rule: drain.raw_induct[rotated 1, consumes 1])
  case (1 drain' E data s rt)
  let ?s1 = "emit Port_in_waiting (s\<lparr>n_waiting := n_waiting s + 1\<rparr>)"
  let ?s2 = "emit (Port_read 1) (?s1\<lparr>n_read := n_read ?s1 + 1\<rparr>)"
  have a: "port ?s1 = port s \<and> modem_connected ?s1 = modem_connected s \<and>
           writes (trace ?s1) = writes (trace s)"
    by (simp add: emit_def writes_append)
  have b: "port ?s2 = port s \<and> modem_connected ?s2 = modem_connected s \<and>
           writes (trace ?s2) = writes (trace s)"
    by (simp add: emit_def writes_append)
  show ?case
    using "1.hyps" a b "1.IH"
    by (auto simp: Let_def split: option.splits if_splits)
qed

lemma drain_keeps:
  "drain E data s = Some (r, t) \<Longrightarrow>
   port t = port s \<and> modem_connected t = modem_connected s \<and>
   writes (trace t) = writes (trace s)"
  using drain_keeps_aux[of E data s "(r, t)"] by simp

lemma drain_completes_aux:
  assumes "\<forall>k. port_in_waiting E k \<noteq> None" and "\<forall>k n. port_read E k n \<noteq> None"
  shows "port_in_waiting E j = Some 0 \<Longrightarrow> n_waiting s \<le> j \<Longrightarrow> d = j - n_waiting s \<Longrightarrow>
         \<exists>bytes t. drain E data s = Some (Inr bytes, t)"
proof (induction d arbitrary: s data)
  case 0
  then have "n_waiting s = j" by simp
  then show ?case
    using "0.prems"(1) by (subst drain.simps) (simp add: Let_def)
next
  case (Suc d)
  obtain n where n: "port_in_waiting E (n_waiting s) = Some n"
    using assms(1) by (metis option.exhaust)
  obtain b where b: "port_read E (n_read s) 1 = Some b"
    using assms(2) by (metis option.exhaust)
  show ?case
  proof (cases "n > 0")
    case False
    with n show ?thesis by (subst drain.simps) (simp add: Let_def)
  next
    case True
    let ?s2 = "emit (Port_read 1)
           ((emit Port_in_waiting (s\<lparr>n_waiting := n_waiting s + 1\<rparr>))
              \<lparr>n_read := n_read (emit Port_in_waiting (s\<lparr>n_waiting := n_waiting s + 1\<rparr>)) + 1\<rparr>)"
    have nw: "n_waiting ?s2 = n_waiting s + 1" by (simp add: emit_def)
    have "\<exists>bytes t. drain E (data @ b) ?s2 = Some (Inr bytes, t)"
      using Suc.IH[of ?s2 "data @ b"] Suc.prems nw by simp
    then show ?thesis
      using n b True by (subst drain.simps) (simp add: Let_def emit_def)
  qed
qed

lemma drain_completes:
  assumes "works E"
  shows "\<exists>bytes t. drain E data s = Some (Inr bytes, t)"
proof -
  have w: "\<forall>k. port_in_waiting E k \<noteq> None" and r: "\<forall>k n. port_read E k n \<noteq> None"
    and q: "quiescent E"
    using assms by (simp_all add: works_def)
  obtain j where j: "j \<ge> n_waiting s" "port_in_waiting E j = None \<or> port_in_waiting E j = Some 0"
    using q unfolding quiescent_def by blast
  then have "port_in_waiting E j = Some 0"
    using w by simp
  then show ?thesis
    using drain_completes_aux[OF w r, of j s "j - n_waiting s" data] j(1) by simp
qed

lemma write_commands_trace:
  "write_commands E cs s = (ok, t) \<Longrightarrow>
   port t = port s \<and> modem_connected t = modem_connected s \<and>
   (\<exists>ws. trace t = trace s @ map Port_write ws \<and> ws = take (length ws) cs \<and> (ok \<longrightarrow> ws = cs))"
proof (induction cs arbitrary: s)
  case Nil
  then show ?case by simp
next
  case (Cons c cs)
  let ?s1 = "emit (Port_write c) (s\<lparr>n_write := n_write s + 1\<rparr>)"
  show ?case
  proof (cases "\<exists>n. port_write E (n_write s) c = Some n \<and> n \<noteq> 0")
    case True
    then have "write_commands E cs ?s1 = (ok, t)"
      using Cons.prems by (auto simp: Let_def)
    from Cons.IH[OF this] obtain ws where
      f: "port t = port ?s1" "modem_connected t = modem_connected ?s1"
      and ws: "trace t = trace ?s1 @ map Port_write ws" "ws = take (length ws) cs" "ok \<longrightarrow> ws = cs"
      by blast
    have "trace t = trace s @ map Port_write (c # ws)"
      using ws(1) by (simp add: emit_def)
    moreover have "c # ws = take (length (c # ws)) (c # cs)"
      using ws(2) by simp
    moreover have "ok \<longrightarrow> c # ws = c # cs"
      using ws(3) by simp
    ultimately have "\<exists>ws'. trace t = trace s @ map Port_write ws' \<and>
                 ws' = take (length ws') (c # cs) \<and> (ok \<longrightarrow> ws' = c # cs)"
      by blast
    moreover have "port t = port s" "modem_connected t = modem_connected s"
      using f by (simp_all add: emit_def)
    ultimately show ?thesis
      by blast
  next
    case False
    then have "ok = False" "t = ?s1"
      using Cons.prems by (auto simp: Let_def split: option.splits if_splits)
    moreover have "trace ?s1 = trace s @ map Port_write [c]"
      by (simp add: emit_def)
    moreover have "[c] = take (length [c]) (c # cs)"
      by simp
    ultimately have "\<exists>ws'. trace t = trace s @ map Port_write ws' \<and>
                 ws' = take (length ws') (c # cs) \<and> (ok \<longrightarrow> ws' = c # cs)"
      by blast
    moreover have "port t = port s" "modem_connected t = modem_connected s"
      using \<open>t = ?s1\<close> by (simp_all add: emit_def)
    ultimately show ?thesis
      by blast
  qed
qed

lemma connected_reconnects:
  assumes "\<not> modem_connected s" and "connected E s = (ok, t)"
  shows "\<exists>ws. trace t = trace s @ Serial_open # map Port_write ws \<and>
           ws = take (length ws) commands \<and>
           (ok \<longrightarrow> ws = commands \<and> modem_connected t \<and> port t \<noteq> None) \<and>
           (\<not> ok \<longrightarrow> \<not> modem_connected t)"
proof (cases "serial_open E (n_open s)")
  case False
  then have "ok = False" "t = emit Serial_open (s\<lparr>n_open := n_open s + 1\<rparr>)"
    using assms by (auto simp: connected_def Let_def)
  then have "trace t = trace s @ Serial_open # map Port_write []" "\<not> modem_connected t"
    using assms(1) by (simp_all add: emit_def)
  then show ?thesis
    using \<open>ok = False\<close> by (intro exI[of _ "[]"]) simp
next
  case True
  let ?s1 = "(emit Serial_open (s\<lparr>n_open := n_open s + 1\<rparr>))\<lparr>port := Some (n_open s)\<rparr>"
  obtain ok1 s2 where wc: "write_commands E commands ?s1 = (ok1, s2)"
    by (cases "write_commands E commands ?s1")
  from write_commands_trace[OF wc] obtain ws where
    f: "port s2 = port ?s1" "modem_connected s2 = modem_connected ?s1"
    and ws: "trace s2 = trace ?s1 @ map Port_write ws" "ws = take (length ws) commands"
      "ok1 \<longrightarrow> ws = commands"
    by blast
  have res: "ok = ok1" "t = (if ok1 then s2\<lparr>modem_connected := True\<rparr> else s2)"
    using assms True wc by (auto simp: connected_def Let_def split: if_splits)
  have "trace t = trace s @ Serial_open # map Port_write ws"
    using res ws(1) by (simp add: emit_def)
  moreover have "ok \<longrightarrow> ws = commands \<and> modem_connected t \<and> port t \<noteq> None"
    using res ws(3) f by (simp add: emit_def)
  moreover have "\<not> ok \<longrightarrow> \<not> modem_connected t"
    using res f assms(1) by (simp add: emit_def)
  ultimately show ?thesis
    using ws(2) by blast
qed

lemma write_commands_works:
  "\<forall>k bytes. \<exists>n. port_write E k bytes = Some n \<and> (bytes \<noteq> [] \<longrightarrow> 0 < n) \<Longrightarrow>
   [] \<notin> set cs \<Longrightarrow> fst (write_commands E cs s)"
proof (induction cs arbitrary: s)
  case Nil
  then show ?case by simp
next
  case (Cons c cs)
  obtain n where "port_write E (n_write s) c = Some n" "c \<noteq> [] \<longrightarrow> 0 < n"
    using Cons.prems(1) by blast
  then show ?case
    using Cons.IH[OF Cons.prems(1)] Cons.prems(2) by (auto simp: Let_def)
qed

lemma connected_when_connected: "modem_connected s \<Longrightarrow> connected E s = (True, s)"
  by (simp add: connected_def)

lemma connected_works:
  assumes "works E" and "modem_connected s \<longrightarrow> port s \<noteq> None"
  shows "\<exists>t. connected E s = (True, t) \<and> modem_connected t \<and> port t \<noteq> None \<and>
           writes (trace t) = writes (trace s) @ (if modem_connected s then [] else commands)"
proof (cases "modem_connected s")
  case True
  then show ?thesis
    using assms(2) by (simp add: connected_when_connected)
next
  case False
  have op: "serial_open E (n_open s)"
    and wr: "\<forall>k bytes. \<exists>n. port_write E k bytes = Some n \<and> (bytes \<noteq> [] \<longrightarrow> 0 < n)"
    using assms(1) by (simp_all add: works_def)
  have ne: "[] \<notin> set commands"
    by (simp add: commands_def)
  obtain ok t where c: "connected E s = (ok, t)"
    by (cases "connected E s")
  have "ok"
    using c False op
      write_commands_works[OF wr ne, of
        "(emit Serial_open (s\<lparr>n_open := n_open s + 1\<rparr>))\<lparr>port := Some (n_open s)\<rparr>"]
    by (auto simp: connected_def Let_def split: prod.splits if_splits)
  from connected_reconnects[OF False c] obtain ws where
    "trace t = trace s @ Serial_open # map Port_write ws"
    "ok \<longrightarrow> ws = commands \<and> modem_connected t \<and> port t \<noteq> None"
    by blast
  then show ?thesis
    using c \<open>ok\<close> False by (simp add: writes_append writes_map)
qed

lemma round_trip_works:
  assumes "works E" and "port s1 \<noteq> None"
  shows "\<exists>answer t. round_trip E (text_of m) s1 = Some (Inr answer, t) \<and>
           modem_connected t = modem_connected s1 \<and> port t = port s1 \<and>
           writes (trace t) = writes (trace s1) @ [m @ crlf]"
proof -
  obtain h where h: "port s1 = Some h"
    using assms(2) by auto
  have enc: "encode_latin1 (text_of m @ text_of crlf) = Some (m @ crlf)"
    using encode_text_of[of "m @ crlf"] by (simp add: text_of_append)
  let ?s2 = "emit (Port_write (m @ crlf)) (s1\<lparr>n_write := n_write s1 + 1\<rparr>)"
  obtain n where n: "port_write E (n_write s1) (m @ crlf) = Some n"
    using assms(1) unfolding works_def by blast
  obtain bytes t where d: "drain E [] (emit (Sleep 100) ?s2) = Some (Inr bytes, t)"
    using drain_completes[OF assms(1)] by blast
  have k: "port t = port (emit (Sleep 100) ?s2) \<and>
           modem_connected t = modem_connected (emit (Sleep 100) ?s2) \<and>
           writes (trace t) = writes (trace (emit (Sleep 100) ?s2))"
    using drain_keeps[OF d] .
  have "round_trip E (text_of m) s1 = Some (Inr (bytes_strip bytes), t)"
    using h enc n d by (simp add: round_trip_def Let_def)
  moreover have "modem_connected t = modem_connected s1" "port t = port s1"
    "writes (trace t) = writes (trace s1) @ [m @ crlf]"
    using k by (simp_all add: emit_def writes_append)
  ultimately show ?thesis by blast
qed

lemma write_modem_works:
  assumes "works E" and "modem_connected s \<longrightarrow> port s \<noteq> None"
  shows "\<exists>answer t. write_modem E (text_of m) s = Some (Str answer, t) \<and>
           modem_connected t \<and> port t \<noteq> None \<and>
           writes (trace t) =
             writes (trace s) @ (if modem_connected s then [] else commands) @ [m @ crlf]"
proof -
  obtain s1 where c: "connected E s = (True, s1)" "modem_connected s1" "port s1 \<noteq> None"
    "writes (trace s1) = writes (trace s) @ (if modem_connected s then [] else commands)"
    using connected_works[OF assms] by blast
  obtain answer t where rt: "round_trip E (text_of m) s1 = Some (Inr answer, t)"
    "modem_connected t = modem_connected s1" "port t = port s1"
    "writes (trace t) = writes (trace s1) @ [m @ crlf]"
    using round_trip_works[OF assms(1) c(3)] by blast
  have "write_modem E (text_of m) s = Some (Str answer, t)"
    using c(1) rt(1) by (simp add: write_modem_def)
  then show ?thesis
    using c rt by auto
qed

lemma send_sms_works:
  assumes "works E" and "modem_connected s \<longrightarrow> port s \<noteq> None"
  shows \<open>\<exists>t. send_sms E (text_of dst) (text_of m) s = Some t \<and>
           writes (trace t) =
             writes (trace s) @ (if modem_connected s then [] else commands) @
               [''AT+CMGS="'' @ dst @ ''"'' @ crlf, m @ crlf, CHR 0x1A # crlf @ crlf]\<close>
proof -
  have first: \<open>text_of ''AT+CMGS="'' @ text_of dst @ text_of ''"'' = text_of (''AT+CMGS="'' @ dst @ ''"'')\<close>
    by (simp add: text_of_def)
  obtain a1 s1 where 1: \<open>write_modem E (text_of (''AT+CMGS="'' @ dst @ ''"'')) s = Some (Str a1, s1)\<close>
    "modem_connected s1" "port s1 \<noteq> None"
    \<open>writes (trace s1) =
       writes (trace s) @ (if modem_connected s then [] else commands) @ [(''AT+CMGS="'' @ dst @ ''"'') @ crlf]\<close>
    using write_modem_works[OF assms] by blast
  obtain a2 s2 where 2: "write_modem E (text_of m) s1 = Some (Str a2, s2)"
    "modem_connected s2" "port s2 \<noteq> None"
    "writes (trace s2) = writes (trace s1) @ (if modem_connected s1 then [] else commands) @ [m @ crlf]"
    using write_modem_works[OF assms(1), of s1 m] 1(3) by blast
  obtain a3 s3 where 3: "write_modem E (text_of (CHR 0x1A # crlf)) s2 = Some (Str a3, s3)"
    "writes (trace s3) =
       writes (trace s2) @ (if modem_connected s2 then [] else commands) @ [(CHR 0x1A # crlf) @ crlf]"
    using write_modem_works[OF assms(1), of s2 "CHR 0x1A # crlf"] 2(3) by blast
  have "send_sms E (text_of dst) (text_of m) s = Some s3"
    using 1(1) 2(1) 3(1) by (simp add: send_sms_def first)
  then show ?thesis
    using 1(2,4) 2(2,4) 3(2) by simp
qed

lemma connected_writes_bound:
  assumes "connected E s = (ok, t)"
  shows "set (writes (trace t)) \<subseteq> set (writes (trace s)) \<union> set commands"
proof (cases "modem_connected s")
  case True
  then show ?thesis
    using assms by (simp add: connected_when_connected)
next
  case False
  from connected_reconnects[OF False assms] obtain ws where
    ws: "trace t = trace s @ Serial_open # map Port_write ws" "ws = take (length ws) commands"
    by blast
  have "set ws \<subseteq> set commands"
    using ws(2) set_take_subset[of "length ws" commands] by simp
  then show ?thesis
    using ws(1) by (auto simp: writes_append writes_map)
qed

lemma round_trip_writes_bound:
  assumes "round_trip E message s1 = Some (r, t)"
  shows "set (writes (trace t)) \<subseteq>
           set (writes (trace s1)) \<union> {bytes. encode_latin1 (message @ text_of crlf) = Some bytes}"
proof -
  have dr: "\<And>bytes r u.
      drain E [] (emit (Sleep 100) (emit (Port_write bytes) (s1\<lparr>n_write := n_write s1 + 1\<rparr>)))
        = Some (r, u) \<Longrightarrow> writes (trace u) = writes (trace s1) @ [bytes]"
  proof -
    fix bytes r u
    assume "drain E [] (emit (Sleep 100) (emit (Port_write bytes) (s1\<lparr>n_write := n_write s1 + 1\<rparr>)))
        = Some (r, u)"
    from drain_keeps[OF this] show "writes (trace u) = writes (trace s1) @ [bytes]"
      by (simp add: emit_def writes_append)
  qed
  show ?thesis
    using assms dr
    by (auto simp: round_trip_def Let_def emit_def writes_append
             split: option.splits sum.splits prod.splits)
qed

lemma write_modem_writes_bound:
  assumes "write_modem E message s = Some (d, t)"
  shows "set (writes (trace t)) \<subseteq>
           set (writes (trace s)) \<union> set commands \<union>
           {bytes. encode_latin1 (message @ text_of crlf) = Some bytes}"
proof -
  obtain ok s1 where c: "connected E s = (ok, s1)"
    by (cases "connected E s")
  have b1: "set (writes (trace s1)) \<subseteq> set (writes (trace s)) \<union> set commands"
    using c by (rule connected_writes_bound)
  show ?thesis
  proof (cases ok)
    case False
    then have "t = s1"
      using assms c by (simp add: write_modem_def)
    then show ?thesis using b1 by auto
  next
    case True
    then obtain r u where rt: "round_trip E message s1 = Some (r, u)" and tu: "trace t = trace u"
      using assms c
      by (auto simp: write_modem_def split: option.splits sum.splits prod.splits)
    show ?thesis
      using round_trip_writes_bound[OF rt] b1 tu by auto
  qed
qed

lemma send_sms_writes_bound:
  assumes "send_sms E (text_of dst) (text_of m) s = Some t"
  shows \<open>set (writes (trace t)) \<subseteq>
           set (writes (trace s)) \<union> set commands \<union>
           {''AT+CMGS="'' @ dst @ ''"'' @ crlf, m @ crlf, CHR 0x1A # crlf @ crlf}\<close>
proof -
  have e1: \<open>encode_latin1 ((text_of ''AT+CMGS="'' @ text_of dst @ text_of ''"'') @ text_of crlf)
              = Some (''AT+CMGS="'' @ dst @ ''"'' @ crlf)\<close>
    using encode_text_of[of \<open>''AT+CMGS="'' @ dst @ ''"'' @ crlf\<close>] by (simp add: text_of_def)
  have e2: "encode_latin1 (text_of m @ text_of crlf) = Some (m @ crlf)"
    using encode_text_of[of "m @ crlf"] by (simp add: text_of_def)
  have e3: "encode_latin1 (text_of (CHR 0x1A # crlf) @ text_of crlf) = Some (CHR 0x1A # crlf @ crlf)"
    using encode_text_of[of "CHR 0x1A # crlf @ crlf"] by (simp add: text_of_def)
  obtain d1 s1 d2 s2 d3 where
    1: \<open>write_modem E (text_of ''AT+CMGS="'' @ text_of dst @ text_of ''"'') s = Some (d1, s1)\<close>
    and 2: "write_modem E (text_of m) s1 = Some (d2, s2)"
    and 3: "write_modem E (text_of (CHR 0x1A # crlf)) s2 = Some (d3, t)"
    using assms by (auto simp: send_sms_def split: option.splits)
  show ?thesis
    using write_modem_writes_bound[OF 1] write_modem_writes_bound[OF 2]
      write_modem_writes_bound[OF 3] e1 e2 e3
    by auto
qed

subsection \<open>The enqueue surface\<close>

lemma queue_update_differs:
  "s\<lparr>queue := heappush lt (queue s) item\<rparr> \<noteq> s"
proof
  assume "s\<lparr>queue := heappush lt (queue s) item\<rparr> = s"
  then have "queue (s\<lparr>queue := heappush lt (queue s) item\<rparr>) = queue s"
    by simp
  then have "length (heappush lt (queue s) item) = length (queue s)"
    by simp
  then show False
    by (simp add: heappush_length)
qed

text \<open>
  C5. An event is put on the queue exactly when its codes are major 37, or major 2
  with minor 6, or major 40 with a minor from 0 to 5; exactly in the other cases the
  call leaves the whole state, and so the queue, as it was.
\<close>

theorem event_enqueues_iff_critical:
  "(mset (queue (event E raw s)) = add_mset (2, ''event'', Event_raw raw) (mset (queue s)))
     = (fst (major raw) = 37 \<or> (fst (major raw) = 2 \<and> fst (minor raw) = 6) \<or>
        (fst (major raw) = 40 \<and> fst (minor raw) \<in> {0, 1, 2, 3, 4, 5}))
   \<and> (event E raw s = s)
     = (\<not> (fst (major raw) = 37 \<or> (fst (major raw) = 2 \<and> fst (minor raw) = 6) \<or>
            (fst (major raw) = 40 \<and> fst (minor raw) \<in> {0, 1, 2, 3, 4, 5})))"
  using queue_update_differs[where s = s and lt = "sortable_lt E"
          and item = "(2, ''event'', Event_raw raw)"]
  by (auto simp: event_def heappush_mset)

theorem event_enqueues_iff_critical_witness:
  "mset (queue (event healthy fire initial)) = {#(2, ''event'', Event_raw fire)#}
   \<and> event healthy fire initial \<noteq> initial"
  using event_enqueues_iff_critical[of healthy fire initial]
  by (simp add: fire_def initial_def)

text \<open>
  C6. A notification is put on the queue exactly when its source is not \<open>gsm\<close>, the
  name of this channel, and its level is at least \<open>CRITICAL\<close>, which is 50; exactly
  in the other cases the call leaves the state as it was.
\<close>

theorem notify_enqueues_iff_foreign_critical:
  "(mset (queue (notify E source message level s))
      = add_mset (2, ''notify'', Notify_args source message level) (mset (queue s)))
     = (source \<noteq> ''gsm'' \<and> 50 \<le> level)
   \<and> (notify E source message level s = s) = (\<not> (source \<noteq> ''gsm'' \<and> 50 \<le> level))"
  using queue_update_differs[where s = s and lt = "sortable_lt E"
          and item = "(2, ''notify'', Notify_args source message level)"]
  by (auto simp: notify_def name_def CRITICAL_def heappush_mset)

theorem notify_enqueues_iff_foreign_critical_witness:
  "mset (queue (notify healthy ''mqtt'' (text_of ''fire'') 50 initial))
     = {#(2, ''notify'', Notify_args ''mqtt'' (text_of ''fire'') 50)#}
   \<and> notify healthy ''gsm'' (text_of ''fire'') 50 initial = initial
   \<and> notify healthy ''mqtt'' (text_of ''fire'') 30 initial = initial"
  using notify_enqueues_iff_foreign_critical[of healthy "''mqtt''" "text_of ''fire''" 50 initial]
        notify_enqueues_iff_foreign_critical[of healthy "''gsm''" "text_of ''fire''" 50 initial]
        notify_enqueues_iff_foreign_critical[of healthy "''mqtt''" "text_of ''fire''" 30 initial]
  by (simp add: initial_def)

subsection \<open>The order of the queue\<close>

text \<open>
  The heap on small inputs, for any comparison \<open>lt\<close> of the items.
\<close>

lemmas heap_unfold = heappush_def heappop_def siftdown_def siftup_def Let_def
  siftdown_loop.simps siftup_loop.simps

lemma fifo_one: "get_n lt (length [a]) (put_all lt [] [a]) = [a]"
  by (simp add: heap_unfold)

lemma fifo_two: "\<not> lt b a \<Longrightarrow> get_n lt (length [a, b]) (put_all lt [] [a, b]) = [a, b]"
  by (simp add: heap_unfold)

lemma fifo_three:
  "\<not> lt b a \<Longrightarrow> \<not> lt c a \<Longrightarrow> \<not> lt c b \<Longrightarrow> \<not> lt b c \<Longrightarrow>
   get_n lt (length [a, b, c]) (put_all lt [] [a, b, c]) = [a, b, c]"
  by (simp add: heap_unfold)

lemma not_fifo_four:
  "\<not> lt b a \<Longrightarrow> \<not> lt c a \<Longrightarrow> \<not> lt d b \<Longrightarrow> \<not> lt b c \<Longrightarrow> \<not> lt d c \<Longrightarrow> \<not> lt b d \<Longrightarrow>
   get_n lt (length [a, b, c, d]) (put_all lt [] [a, b, c, d]) = [a, c, b, d]"
  by (simp add: heap_unfold)

lemma overtake_two: "lt b a \<Longrightarrow> get_n lt (length [a, b]) (put_all lt [] [a, b]) = [b, a]"
  by (simp add: heap_unfold)

text \<open>
  C3, as the code has it. The items carry no insertion number, so the order of items
  that tie under the comparison is the order the heap happens to give. Up to three
  items that tie, put on an empty queue, leave it in the order of insertion.
\<close>

theorem fifo_up_to_three_ties:
  assumes "length xs \<le> 3" and "\<forall>x\<in>set xs. \<forall>y\<in>set xs. \<not> lt x y"
  shows "get_n lt (length xs) (put_all lt [] xs) = xs"
proof -
  consider "xs = []" | a where "xs = [a]" | a b where "xs = [a, b]"
    | a b c where "xs = [a, b, c]"
  proof (cases xs)
    case Nil
    then show ?thesis using that by blast
  next
    case (Cons a ys)
    note xs = this
    show ?thesis
    proof (cases ys)
      case Nil
      then show ?thesis using xs that by blast
    next
      case (Cons b zs)
      note ys = this
      show ?thesis
      proof (cases zs)
        case Nil
        then show ?thesis using xs ys that by blast
      next
        case (Cons c ws)
        then have "ws = []" using assms(1) xs ys by simp
        then show ?thesis using xs ys Cons that by blast
      qed
    qed
  qed
  then show ?thesis
  proof cases
    case 1
    then show ?thesis by simp
  next
    case 2
    show ?thesis unfolding 2 by (rule fifo_one)
  next
    case 3
    have "\<not> lt b a" using assms(2) 3 by simp
    then show ?thesis unfolding 3 by (rule fifo_two)
  next
    case 4
    have "\<not> lt b a" "\<not> lt c a" "\<not> lt c b" "\<not> lt b c" using assms(2) 4 by simp_all
    then show ?thesis unfolding 4 by (rule fifo_three)
  qed
qed

theorem fifo_up_to_three_ties_witness:
  "get_n priority_lt 3 (queue (event healthy panic (notify healthy ''mqtt'' (text_of ''smoke'') 50
      (event healthy fire initial)))) =
     [(2, ''event'', Event_raw fire), (2, ''notify'', Notify_args ''mqtt'' (text_of ''smoke'') 50),
      (2, ''event'', Event_raw panic)]"
proof -
  let ?xs = "[(2, ''event'', Event_raw fire), (2, ''notify'', Notify_args ''mqtt'' (text_of ''smoke'') 50),
      (2, ''event'', Event_raw panic)] :: work_item list"
  have q: "queue (event healthy panic (notify healthy ''mqtt'' (text_of ''smoke'') 50
      (event healthy fire initial))) = put_all priority_lt [] ?xs"
    by (simp add: event_def notify_def healthy_def fire_def panic_def initial_def name_def
          CRITICAL_def)
  have l: "length ?xs \<le> 3"
    by simp
  have t: "\<forall>x\<in>set ?xs. \<forall>y\<in>set ?xs. \<not> priority_lt x y"
    by (simp add: priority_lt_def)
  have n: "length ?xs = 3"
    by simp
  from fifo_up_to_three_ties[OF l t] show ?thesis
    unfolding q n .
qed

text \<open>
  C3, as stated, fails. Four accepted items of priority 2, an event, a notification,
  an event and a notification, leave the queue with both events first, whether the
  comparison reads the priority alone or the priority and then the kind.
\<close>

theorem four_equal_priority_not_fifo:
  "get_n (sortable_lt healthy) 4
     (queue (notify healthy ''mqtt'' (text_of ''flood'') 50 (event healthy panic
        (notify healthy ''mqtt'' (text_of ''smoke'') 50 (event healthy fire initial))))) =
     [(2, ''event'', Event_raw fire), (2, ''event'', Event_raw panic),
      (2, ''notify'', Notify_args ''mqtt'' (text_of ''smoke'') 50),
      (2, ''notify'', Notify_args ''mqtt'' (text_of ''flood'') 50)]
   \<and> get_n (sortable_lt healthy_by_kind) 4
     (queue (notify healthy_by_kind ''mqtt'' (text_of ''flood'') 50 (event healthy_by_kind panic
        (notify healthy_by_kind ''mqtt'' (text_of ''smoke'') 50 (event healthy_by_kind fire initial))))) =
     [(2, ''event'', Event_raw fire), (2, ''event'', Event_raw panic),
      (2, ''notify'', Notify_args ''mqtt'' (text_of ''smoke'') 50),
      (2, ''notify'', Notify_args ''mqtt'' (text_of ''flood'') 50)]"
  by code_simp

text \<open>
  No comparison of the items repairs this: among four distinct items some insertion
  order is not the order of removal, whatever \<open>lt\<close> is.
\<close>

lemma no_comparison_gives_fifo:
  assumes "distinct [a, b, c, d]"
  shows "\<exists>xs. set xs \<subseteq> {a, b, c, d} \<and> get_n lt (length xs) (put_all lt [] xs) \<noteq> xs"
proof (cases "\<exists>x\<in>{a, b, c, d}. \<exists>y\<in>{a, b, c, d}. x \<noteq> y \<and> lt y x")
  case True
  then obtain x y where xy: "x \<in> {a, b, c, d}" "y \<in> {a, b, c, d}" "x \<noteq> y" "lt y x"
    by blast
  have "get_n lt (length [x, y]) (put_all lt [] [x, y]) = [y, x]"
    using xy(4) by (rule overtake_two)
  then have "get_n lt (length [x, y]) (put_all lt [] [x, y]) \<noteq> [x, y]"
    using xy(3) by simp
  moreover have "set [x, y] \<subseteq> {a, b, c, d}"
    using xy(1,2) by simp
  ultimately show ?thesis by blast
next
  case False
  then have "\<not> lt b a" "\<not> lt c a" "\<not> lt d b" "\<not> lt b c" "\<not> lt d c" "\<not> lt b d"
    using assms by auto
  then have "get_n lt (length [a, b, c, d]) (put_all lt [] [a, b, c, d]) = [a, c, b, d]"
    by (rule not_fifo_four)
  then have "get_n lt (length [a, b, c, d]) (put_all lt [] [a, b, c, d]) \<noteq> [a, b, c, d]"
    using assms by simp
  moreover have "set [a, b, c, d] \<subseteq> {a, b, c, d}"
    by simp
  ultimately show ?thesis by blast
qed

subsection \<open>Inbound messages\<close>

lemma send_command_returns_none: "fst (send_command message s) = None"
  by (auto simp: send_command_def Let_def split: option.splits)

lemma send_command_fields:
  "snd (send_command message s) = s\<lparr>trace := trace (snd (send_command message s))\<rparr>"
  by (auto simp: send_command_def Let_def emit_def split: option.splits)

lemma send_command_trace:
  "trace (snd (send_command message s)) = trace s \<or>
   (\<exists>e. is_alarm_call e \<and> trace (snd (send_command message s)) = trace s @ [e])"
  by (auto simp: send_command_def Let_def emit_def split: option.splits)

lemma healthy_quiescent: "quiescent healthy"
  by (auto simp: quiescent_def healthy_def)

lemma healthy_works: "works healthy"
  using healthy_quiescent by (simp add: works_def healthy_def)

lemma port_only_trace: "port_only s t \<Longrightarrow> \<exists>es. trace t = trace s @ es"
  by (auto simp: port_only_def)

lemma send_command_extends: "\<exists>es. trace (snd (send_command message s)) = trace s @ es"
  using send_command_trace[of message s] by auto

lemma handler_notify_registered:
  "notification_handler s \<noteq> None \<Longrightarrow>
   handler_notify source message level s = (Inr (), emit (Notify source message level) s)"
  by (auto simp: handler_notify_def)

lemma send_command_keeps_handler:
  "notification_handler (snd (send_command message s)) = notification_handler s"
  by (subst send_command_fields) simp

lemma send_command_invalid_action:
  assumes a: "alarm s \<noteq> None"
    and sp: "split_on CHR '' '' message = [t0, t1, t2]"
    and bad: "(lower t0 = ''zone'' \<and>
            normalize_payload t2 \<notin> {Some ''bypass'', Some ''clear_bypass''}) \<or>
         (lower t0 = ''partition'' \<and>
            normalize_payload t2 \<notin> {Some ''arm'', Some ''disarm'', Some ''arm_stay'', Some ''arm_sleep''}) \<or>
         (lower t0 = ''output'' \<and>
            normalize_payload t2 \<notin> {Some ''on'', Some ''off'', Some ''pulse''})"
  shows "send_command message s = (None, s)"
proof -
  have tok: "length (split_on CHR '' '' message) = 3" "split_on CHR '' '' message ! 0 = t0"
     "split_on CHR '' '' message ! 1 = t1" "split_on CHR '' '' message ! 2 = t2"
    using sp by simp_all
  obtain al where al: "alarm s = Some al"
    using a by auto
  consider
      (z) "lower t0 = ''zone''"
         "normalize_payload t2 \<notin> {Some ''bypass'', Some ''clear_bypass''}"
    | (p) "lower t0 = ''partition''"
         "normalize_payload t2 \<notin> {Some ''arm'', Some ''disarm'', Some ''arm_stay'', Some ''arm_sleep''}"
    | (o) "lower t0 = ''output''"
         "normalize_payload t2 \<notin> {Some ''on'', Some ''off'', Some ''pulse''}"
    using bad by blast
  then show ?thesis
  proof cases
    case z
    then show ?thesis
      unfolding send_command_def Let_def tok using al
      by (cases "normalize_payload t2") simp_all
  next
    case p
    then show ?thesis
      unfolding send_command_def Let_def tok using al
      by (cases "normalize_payload t2") simp_all
  next
    case o
    then show ?thesis
      unfolding send_command_def Let_def tok using al
      by (cases "normalize_payload t2") simp_all
  qed
qed

text \<open>
  For a listed sender the reply is always the \<open>REJECTED\<close> one: the branch that
  would send \<open>ACCEPTED\<close> needs a true value from \<open>send_command\<close>, which returns
  \<open>None\<close> on every path.
\<close>

lemma listed_sender_always_rejected:
  assumes "alarm s \<noteq> None" and "notification_handler s \<noteq> None"
    and "source \<in> set (GSM_CONTACTS E)"
  shows "handle_message E timestamp source message s =
           (case send_sms E (text_of source) (text_of (''REJECTED: '' @ message))
                   (snd (send_command message
                      (emit (Notify ''gsm'' (source @ '': '' @ message) 20) s))) of
              None \<Rightarrow> None
            | Some s3 \<Rightarrow>
                Some (handler_notify ''gsm'' (''REJECTED: '' @ source @ '': '' @ message) 20 s3))"
proof -
  let ?s1 = "emit (Notify ''gsm'' (source @ '': '' @ message) 20) s"
  obtain ret s2 where sc: "send_command message ?s1 = (ret, s2)"
    by (cases "send_command message ?s1")
  have "ret = None"
    using send_command_returns_none[of message ?s1] sc by simp
  then show ?thesis
    using assms sc
    by (auto simp: handle_message_def handler_notify_registered name_def INFO_def truthy_def
             cong: option.case_cong)
qed

text \<open>
  C1. The message \<open>zone frontdoor bypass\<close> from the listed contact, with an alarm
  that accepts: \<open>control_zone\<close> is called once with \<open>frontdoor\<close> and \<open>bypass\<close>,
  and the reply written to the modem for the sender is \<open>REJECTED: zone frontdoor
  bypass\<close>, not \<open>ACCEPTED\<close>, since \<open>send_command\<close> returns \<open>None\<close> on every path.
\<close>

theorem listed_sender_valid_command_rejected:
  \<open>map_option (trace \<circ> snd)
     (handle_message healthy (25, 1, 1, 12, 0, 0) ''+15550100'' ''zone frontdoor bypass'' ready) =
   Some [Notify ''gsm'' ''+15550100: zone frontdoor bypass'' 20,
         Control_zone ''frontdoor'' ''bypass'',
         Serial_open, Port_write ''AT'', Port_write ''ATE0'', Port_write ''AT+CMGF=1'',
         Port_write ''AT+CNMI=1,2,0,0,0'', Port_write ''AT+CUSD=1,"*111#"'',
         Port_write (''AT+CMGS="+15550100"'' @ crlf), Sleep 100, Port_in_waiting,
         Port_write (''REJECTED: zone frontdoor bypass'' @ crlf), Sleep 100, Port_in_waiting,
         Port_write (CHR 0x1A # crlf @ crlf), Sleep 100, Port_in_waiting,
         Notify ''gsm'' ''REJECTED: +15550100: zone frontdoor bypass'' 20]\<close>
  by code_simp

text \<open>
  C2, as the code has it. With an alarm and a notification handler registered, a
  message from a sender outside the contact list changes nothing but the trace,
  which gains two notifications at level \<open>INFO\<close>: the echo of the message and the
  \<open>REJECTED\<close> line. No operation of the port is performed, so no SMS is sent.
\<close>

theorem unlisted_sender_no_reply:
  assumes "alarm s \<noteq> None" and "notification_handler s \<noteq> None"
    and "source \<notin> set (GSM_CONTACTS E)"
  shows "handle_message E timestamp source message s =
           Some (Inr (), s\<lparr>trace := trace s @
                   [Notify ''gsm'' (source @ '': '' @ message) 20,
                    Notify ''gsm'' (''REJECTED: '' @ source @ '': '' @ message) 20]\<rparr>)"
  using assms
  by (auto simp: handle_message_def handler_notify_def emit_def name_def INFO_def)

theorem unlisted_sender_no_reply_witness:
  "handle_message healthy (25, 1, 1, 12, 0, 0) ''+15550199'' ''partition 1 arm'' ready =
     Some (Inr (), ready\<lparr>trace :=
             [Notify ''gsm'' ''+15550199: partition 1 arm'' 20,
              Notify ''gsm'' ''REJECTED: +15550199: partition 1 arm'' 20]\<rparr>)"
  using unlisted_sender_no_reply[of ready "''+15550199''" healthy "(25, 1, 1, 12, 0, 0)" "''partition 1 arm''"]
  by (simp add: ready_def set_notify_def set_alarm_def initial_def healthy_def)

text \<open>
  C2, as stated, fails: the notifications emitted for a sender outside the list are
  two, not one.
\<close>

theorem unlisted_sender_two_notifications:
  "map_option (filter is_notify \<circ> trace \<circ> snd)
     (handle_message healthy (25, 1, 1, 12, 0, 0) ''+15550199'' ''partition 1 arm'' ready) =
     Some [Notify ''gsm'' ''+15550199: partition 1 arm'' 20,
           Notify ''gsm'' ''REJECTED: +15550199: partition 1 arm'' 20]"
  by (simp add: handle_message_def handler_notify_def emit_def name_def INFO_def
        ready_def set_notify_def set_alarm_def initial_def healthy_def)

text \<open>
  C7, as stated, fails: without an alarm the call returns at once, and the message is
  not echoed to the registered notification handler.
\<close>

theorem no_alarm_no_echo:
  "handle_message healthy (25, 1, 1, 12, 0, 0) ''+15550100'' ''zone frontdoor bypass''
     (set_notify initial) = Some (Inr (), set_notify initial)
   \<and> trace (set_notify initial) = []"
  by (simp add: handle_message_def set_notify_def initial_def)

text \<open>
  C7, as the code has it. Without an alarm the call does nothing at all: no echo, no
  reply, no call of a collaborator. With an alarm and a notification handler
  registered, every call that returns has added the echo of the message, at level
  \<open>INFO\<close>, as its first effect; and the call does return whenever the device
  cannot keep bytes waiting for ever.
\<close>

theorem incoming_message_echo:
  "(alarm s = None \<longrightarrow> handle_message E timestamp source message s = Some (Inr (), s)) \<and>
   (alarm s \<noteq> None \<and> notification_handler s \<noteq> None \<longrightarrow>
      (\<forall>r t. handle_message E timestamp source message s = Some (r, t) \<longrightarrow>
         (\<exists>rest. trace t = trace s @ Notify ''gsm'' (source @ '': '' @ message) 20 # rest)) \<and>
      (quiescent E \<longrightarrow> (\<exists>r t. handle_message E timestamp source message s = Some (r, t))))"
proof (intro conjI impI allI)
  assume "alarm s = None"
  then show "handle_message E timestamp source message s = Some (Inr (), s)"
    by (simp add: handle_message_def)
next
  fix r t
  assume reg: "alarm s \<noteq> None \<and> notification_handler s \<noteq> None"
    and hm: "handle_message E timestamp source message s = Some (r, t)"
  let ?echo = "Notify ''gsm'' (source @ '': '' @ message) 20"
  let ?s1 = "emit ?echo s"
  let ?s2 = "snd (send_command message ?s1)"
  let ?rej = "Notify ''gsm'' (''REJECTED: '' @ source @ '': '' @ message) 20"
  show "\<exists>rest. trace t = trace s @ ?echo # rest"
  proof (cases "source \<in> set (GSM_CONTACTS E)")
    case False
    then have "t = emit ?rej ?s1"
      using reg hm
      by (auto simp: handle_message_def handler_notify_def name_def INFO_def emit_def)
    then show ?thesis by (simp add: emit_def)
  next
    case True
    have nh2: "notification_handler ?s2 \<noteq> None"
      using reg by (simp add: send_command_keeps_handler emit_def)
    obtain es where es: "trace ?s2 = trace ?s1 @ es"
      using send_command_extends by blast
    obtain s3 where s3:
      "send_sms E (text_of source) (text_of (''REJECTED: '' @ message)) ?s2 = Some s3"
      and t: "t = snd (handler_notify name (''REJECTED: '' @ source @ '': '' @ message) INFO s3)"
      using reg hm True send_command_returns_none[of message ?s1]
      by (auto simp: handle_message_def handler_notify_registered name_def INFO_def truthy_def
               split: prod.splits option.splits)
    obtain fs where fs: "trace s3 = trace ?s2 @ fs"
      using send_sms_port_only[OF s3] port_only_trace by blast
    have "\<exists>gs. trace t = trace s3 @ gs"
      using t by (auto simp: handler_notify_def emit_def split: option.splits)
    then show ?thesis
      using es fs by (auto simp: emit_def)
  qed
next
  assume reg: "alarm s \<noteq> None \<and> notification_handler s \<noteq> None" and q: "quiescent E"
  let ?echo = "Notify ''gsm'' (source @ '': '' @ message) 20"
  let ?s1 = "emit ?echo s"
  obtain ret s2 where sc: "send_command message ?s1 = (ret, s2)"
    by (cases "send_command message ?s1")
  obtain s3 where "send_sms E (text_of source) (text_of (''REJECTED: '' @ message)) s2 = Some s3"
    using send_sms_returns[OF q] by blast
  moreover obtain s3' where
    "send_sms E (text_of source) (text_of (''ACCEPTED: '' @ message)) s2 = Some s3'"
    using send_sms_returns[OF q] by blast
  ultimately show "\<exists>r t. handle_message E timestamp source message s = Some (r, t)"
    using reg sc
    by (auto simp: handle_message_def handler_notify_registered name_def INFO_def)
qed

theorem incoming_message_echo_witness:
  "handle_message healthy (25, 1, 1, 12, 0, 0) ''+15550100'' ''zone frontdoor bypass''
     (set_notify initial) = Some (Inr (), set_notify initial)
   \<and> (\<exists>r t rest. handle_message healthy (25, 1, 1, 12, 0, 0) ''+15550100'' ''zone frontdoor bypass'' ready
              = Some (r, t)
            \<and> trace t = Notify ''gsm'' ''+15550100: zone frontdoor bypass'' 20 # rest)"
proof -
  let ?hm = "handle_message healthy (25, 1, 1, 12, 0, 0) ''+15550100'' ''zone frontdoor bypass''"
  have none: "alarm (set_notify initial) = None"
    by (simp add: set_notify_def initial_def)
  have reg: "alarm ready \<noteq> None \<and> notification_handler ready \<noteq> None"
    by (simp add: ready_def set_notify_def set_alarm_def initial_def)
  have tr: "trace ready = []"
    by (simp add: ready_def set_notify_def set_alarm_def initial_def)
  have first: "?hm (set_notify initial) = Some (Inr (), set_notify initial)"
    using incoming_message_echo[of "set_notify initial" healthy "(25, 1, 1, 12, 0, 0)"
            "''+15550100''" "''zone frontdoor bypass''"] none
    by blast
  have second:
    "(\<forall>r t. ?hm ready = Some (r, t) \<longrightarrow>
         (\<exists>rest. trace t = trace ready @ Notify ''gsm'' (''+15550100'' @ '': '' @ ''zone frontdoor bypass'') 20 # rest)) \<and>
     (quiescent healthy \<longrightarrow> (\<exists>r t. ?hm ready = Some (r, t)))"
    using incoming_message_echo[of ready healthy "(25, 1, 1, 12, 0, 0)"
            "''+15550100''" "''zone frontdoor bypass''"] reg
    by blast
  obtain r t where rt: "?hm ready = Some (r, t)"
    using second healthy_quiescent by blast
  obtain rest where
    "trace t = trace ready @ Notify ''gsm'' (''+15550100'' @ '': '' @ ''zone frontdoor bypass'') 20 # rest"
    using second rt by blast
  then have "trace t = Notify ''gsm'' ''+15550100: zone frontdoor bypass'' 20 # rest"
    using tr by simp
  then show ?thesis
    using first rt by blast
qed

text \<open>
  C8. A message of three tokens from a listed contact, whose first token names a
  zone, a partition or an output and whose normalized third token is not an action
  of that type. On every device that cannot keep bytes waiting for ever the call
  returns, no method of the alarm is called, the notifications are the echo and the
  \<open>REJECTED\<close> line, and nothing is written to the port but initialization commands
  and the three lines of the reply \<open>REJECTED:\<close> and the message to the sender. On
  a device that works, all three lines are written, after the initialization
  commands when the modem was not connected.
\<close>

theorem invalid_action_rejected:
  assumes "alarm s \<noteq> None" and "notification_handler s \<noteq> None"
    and "source \<in> set (GSM_CONTACTS E)"
    and "split_on CHR '' '' message = [t0, t1, t2]"
    and "(lower t0 = ''zone'' \<and>
            normalize_payload t2 \<notin> {Some ''bypass'', Some ''clear_bypass''}) \<or>
         (lower t0 = ''partition'' \<and>
            normalize_payload t2 \<notin> {Some ''arm'', Some ''disarm'', Some ''arm_stay'', Some ''arm_sleep''}) \<or>
         (lower t0 = ''output'' \<and>
            normalize_payload t2 \<notin> {Some ''on'', Some ''off'', Some ''pulse''})"
  shows \<open>(quiescent E \<longrightarrow>
            (\<exists>t. handle_message E timestamp source message s = Some (Inr (), t) \<and>
               filter is_alarm_call (trace t) = filter is_alarm_call (trace s) \<and>
               filter is_notify (trace t) =
                 filter is_notify (trace s) @
                   [Notify ''gsm'' (source @ '': '' @ message) 20,
                    Notify ''gsm'' (''REJECTED: '' @ source @ '': '' @ message) 20] \<and>
               set (writes (trace t)) \<subseteq>
                 set (writes (trace s)) \<union> set commands \<union>
                 {''AT+CMGS="'' @ source @ ''"'' @ crlf, (''REJECTED: '' @ message) @ crlf,
                  CHR 0x1A # crlf @ crlf})) \<and>
         (works E \<and> (modem_connected s \<longrightarrow> port s \<noteq> None) \<longrightarrow>
            (\<exists>t. handle_message E timestamp source message s = Some (Inr (), t) \<and>
               writes (trace t) =
                 writes (trace s) @ (if modem_connected s then [] else commands) @
                   [''AT+CMGS="'' @ source @ ''"'' @ crlf, (''REJECTED: '' @ message) @ crlf,
                    CHR 0x1A # crlf @ crlf]))\<close>
proof -
  let ?echo = "Notify ''gsm'' (source @ '': '' @ message) 20"
  let ?rej = "Notify ''gsm'' (''REJECTED: '' @ source @ '': '' @ message) 20"
  let ?s1 = "emit ?echo s"
  have a1: "alarm ?s1 \<noteq> None"
    using assms(1) by (simp add: emit_def)
  have sc: "send_command message ?s1 = (None, ?s1)"
    using a1 assms(4,5) by (rule send_command_invalid_action)
  have hm: "\<And>t. send_sms E (text_of source) (text_of (''REJECTED: '' @ message)) ?s1 = Some t \<Longrightarrow>
              handle_message E timestamp source message s = Some (Inr (), emit ?rej t)"
  proof -
    fix t
    assume t: "send_sms E (text_of source) (text_of (''REJECTED: '' @ message)) ?s1 = Some t"
    have nh: "notification_handler t \<noteq> None"
      using send_sms_port_only[OF t] assms(2) by (simp add: port_only_def emit_def)
    show "handle_message E timestamp source message s = Some (Inr (), emit ?rej t)"
      using assms(1,2,3) sc t nh
      by (auto simp: handle_message_def handler_notify_registered name_def INFO_def truthy_def)
  qed
  have general: \<open>quiescent E \<longrightarrow>
            (\<exists>t. handle_message E timestamp source message s = Some (Inr (), t) \<and>
               filter is_alarm_call (trace t) = filter is_alarm_call (trace s) \<and>
               filter is_notify (trace t) = filter is_notify (trace s) @ [?echo, ?rej] \<and>
               set (writes (trace t)) \<subseteq>
                 set (writes (trace s)) \<union> set commands \<union>
                 {''AT+CMGS="'' @ source @ ''"'' @ crlf, (''REJECTED: '' @ message) @ crlf,
                  CHR 0x1A # crlf @ crlf})\<close>
  proof
    assume q: "quiescent E"
    obtain t where t: "send_sms E (text_of source) (text_of (''REJECTED: '' @ message)) ?s1 = Some t"
      using send_sms_returns[OF q] by blast
    have po: "port_only ?s1 t"
      using t by (rule send_sms_port_only)
    have calls: "filter is_alarm_call (trace (emit ?rej t)) = filter is_alarm_call (trace s)"
      using port_only_alarm_calls[OF po] by (simp add: emit_def)
    have notifs: "filter is_notify (trace (emit ?rej t)) = filter is_notify (trace s) @ [?echo, ?rej]"
      using port_only_notifies[OF po] by (simp add: emit_def)
    have wire: \<open>set (writes (trace (emit ?rej t))) \<subseteq>
                 set (writes (trace s)) \<union> set commands \<union>
                 {''AT+CMGS="'' @ source @ ''"'' @ crlf, (''REJECTED: '' @ message) @ crlf,
                  CHR 0x1A # crlf @ crlf}\<close>
      using send_sms_writes_bound[OF t] by (simp add: emit_def writes_append)
    show \<open>\<exists>t. handle_message E timestamp source message s = Some (Inr (), t) \<and>
               filter is_alarm_call (trace t) = filter is_alarm_call (trace s) \<and>
               filter is_notify (trace t) = filter is_notify (trace s) @ [?echo, ?rej] \<and>
               set (writes (trace t)) \<subseteq>
                 set (writes (trace s)) \<union> set commands \<union>
                 {''AT+CMGS="'' @ source @ ''"'' @ crlf, (''REJECTED: '' @ message) @ crlf,
                  CHR 0x1A # crlf @ crlf}\<close>
      using hm[OF t] calls notifs wire by blast
  qed
  have working: \<open>works E \<and> (modem_connected s \<longrightarrow> port s \<noteq> None) \<longrightarrow>
            (\<exists>t. handle_message E timestamp source message s = Some (Inr (), t) \<and>
               writes (trace t) =
                 writes (trace s) @ (if modem_connected s then [] else commands) @
                   [''AT+CMGS="'' @ source @ ''"'' @ crlf, (''REJECTED: '' @ message) @ crlf,
                    CHR 0x1A # crlf @ crlf])\<close>
  proof
    assume w: "works E \<and> (modem_connected s \<longrightarrow> port s \<noteq> None)"
    then have inv: "modem_connected ?s1 \<longrightarrow> port ?s1 \<noteq> None"
      by (simp add: emit_def)
    from send_sms_works[OF conjunct1[OF w] inv, of source "''REJECTED: '' @ message"]
    obtain t where
      t: "send_sms E (text_of source) (text_of (''REJECTED: '' @ message)) ?s1 = Some t"
      and wr: \<open>writes (trace t) =
             writes (trace ?s1) @ (if modem_connected ?s1 then [] else commands) @
               [''AT+CMGS="'' @ source @ ''"'' @ crlf, (''REJECTED: '' @ message) @ crlf,
                CHR 0x1A # crlf @ crlf]\<close>
      by blast
    have \<open>writes (trace (emit ?rej t)) =
             writes (trace s) @ (if modem_connected s then [] else commands) @
               [''AT+CMGS="'' @ source @ ''"'' @ crlf, (''REJECTED: '' @ message) @ crlf,
                CHR 0x1A # crlf @ crlf]\<close>
      using wr by (simp add: emit_def writes_append)
    then show \<open>\<exists>t. handle_message E timestamp source message s = Some (Inr (), t) \<and>
               writes (trace t) =
                 writes (trace s) @ (if modem_connected s then [] else commands) @
                   [''AT+CMGS="'' @ source @ ''"'' @ crlf, (''REJECTED: '' @ message) @ crlf,
                    CHR 0x1A # crlf @ crlf]\<close>
      using hm[OF t] by blast
  qed
  show ?thesis
    using general working by (rule conjI)
qed

theorem invalid_action_rejected_witness:
  \<open>\<exists>t. handle_message healthy (25, 1, 1, 12, 0, 0) ''+15550100'' ''partition 1 invalidaction'' ready
          = Some (Inr (), t) \<and>
        filter is_alarm_call (trace t) = [] \<and>
        filter is_notify (trace t) =
          [Notify ''gsm'' ''+15550100: partition 1 invalidaction'' 20,
           Notify ''gsm'' ''REJECTED: +15550100: partition 1 invalidaction'' 20] \<and>
        writes (trace t) =
          [''AT'', ''ATE0'', ''AT+CMGF=1'', ''AT+CNMI=1,2,0,0,0'', ''AT+CUSD=1,"*111#"'',
           ''AT+CMGS="+15550100"'' @ crlf, ''REJECTED: partition 1 invalidaction'' @ crlf,
           CHR 0x1A # crlf @ crlf]\<close>
proof -
  have 1: "alarm ready \<noteq> None" and 2: "notification_handler ready \<noteq> None"
    and tr: "trace ready = []" and nc: "\<not> modem_connected ready"
    by (simp_all add: ready_def set_notify_def set_alarm_def initial_def)
  have 3: "''+15550100'' \<in> set (GSM_CONTACTS healthy)"
    by (simp add: healthy_def)
  have 4: "split_on CHR '' '' ''partition 1 invalidaction'' = [''partition'', ''1'', ''invalidaction'']"
    by simp
  have l: "lower ''partition'' = ''partition''"
    by (simp add: lower_def py_lower_char_def)
  have n: "normalize_payload ''invalidaction'' = None"
    by (simp add: normalize_payload_def lower_def py_lower_char_def strip_def strip_with_def
          str_space_def)
  have 5: "(lower ''partition'' = ''zone'' \<and>
            normalize_payload ''invalidaction'' \<notin> {Some ''bypass'', Some ''clear_bypass''}) \<or>
         (lower ''partition'' = ''partition'' \<and>
            normalize_payload ''invalidaction'' \<notin> {Some ''arm'', Some ''disarm'', Some ''arm_stay'', Some ''arm_sleep''}) \<or>
         (lower ''partition'' = ''output'' \<and>
            normalize_payload ''invalidaction'' \<notin> {Some ''on'', Some ''off'', Some ''pulse''})"
    using l n by simp
  note inst = invalid_action_rejected[OF 1 2 3 4 5, where timestamp = "(25, 1, 1, 12, 0, 0)"]
  obtain t where t:
    "handle_message healthy (25, 1, 1, 12, 0, 0) ''+15550100'' ''partition 1 invalidaction'' ready
       = Some (Inr (), t)"
    "filter is_alarm_call (trace t) = filter is_alarm_call (trace ready)"
    "filter is_notify (trace t) =
       filter is_notify (trace ready) @
         [Notify ''gsm'' (''+15550100'' @ '': '' @ ''partition 1 invalidaction'') 20,
          Notify ''gsm'' (''REJECTED: '' @ ''+15550100'' @ '': '' @ ''partition 1 invalidaction'') 20]"
    using inst healthy_quiescent by blast
  obtain u where u:
    "handle_message healthy (25, 1, 1, 12, 0, 0) ''+15550100'' ''partition 1 invalidaction'' ready
       = Some (Inr (), u)"
    \<open>writes (trace u) =
       writes (trace ready) @ (if modem_connected ready then [] else commands) @
         [''AT+CMGS="'' @ ''+15550100'' @ ''"'' @ crlf,
          (''REJECTED: '' @ ''partition 1 invalidaction'') @ crlf, CHR 0x1A # crlf @ crlf]\<close>
    using inst healthy_works nc by blast
  have "u = t"
    using t(1) u(1) by simp
  then show ?thesis
    using t u(2) tr nc by (simp add: commands_def)
qed

text \<open>
  The same message on a modem that takes every write: the whole trace.
\<close>

lemma invalid_action_reply_on_the_wire:
  \<open>map_option (trace \<circ> snd)
     (handle_message healthy (25, 1, 1, 12, 0, 0) ''+15550100'' ''partition 1 invalidaction'' ready) =
   Some [Notify ''gsm'' ''+15550100: partition 1 invalidaction'' 20,
         Serial_open, Port_write ''AT'', Port_write ''ATE0'', Port_write ''AT+CMGF=1'',
         Port_write ''AT+CNMI=1,2,0,0,0'', Port_write ''AT+CUSD=1,"*111#"'',
         Port_write (''AT+CMGS="+15550100"'' @ crlf), Sleep 100, Port_in_waiting,
         Port_write (''REJECTED: partition 1 invalidaction'' @ crlf), Sleep 100, Port_in_waiting,
         Port_write (CHR 0x1A # crlf @ crlf), Sleep 100, Port_in_waiting,
         Notify ''gsm'' ''REJECTED: +15550100: partition 1 invalidaction'' 20]\<close>
  by code_simp

subsection \<open>Write failures and reconnection\<close>







subsection \<open>The worker loop\<close>

text \<open>
  While the stop flag is clear the inner loop of \<open>run\<close> is one call of
  \<open>connected\<close> and no sleep, whatever that call answers.
\<close>

lemma reconnect_wait_stop_clear:
  "\<not> stop_running s \<Longrightarrow> reconnect_wait E s = Some (snd (connected E s))"
proof -
  assume clear: "\<not> stop_running s"
  obtain ok s1 where c: "connected E s = (ok, s1)"
    by (cases "connected E s")
  have "stop_running s1 = stop_running s"
    using connected_port_only[OF c] by (simp add: port_only_def)
  then show ?thesis
    using clear c by (subst reconnect_wait.simps) simp
qed

text \<open>
  C4. Two iterations of the loop on a modem that opens once and is then removed. The
  first ends disconnected, the stop flag clear. In the second the reconnection fails
  and the read of 200 bytes follows at once: no sleep of ten seconds stands between
  them, the only sleep being the second at the top of the iteration.
\<close>

theorem disconnected_loop_reads_without_backoff:
  \<open>map_option trace (run_body unplugged initial) =
     Some [Sleep 1000, Serial_open, Port_write ''AT'', Port_write ''ATE0'',
           Port_write ''AT+CMGF=1'', Port_write ''AT+CNMI=1,2,0,0,0'',
           Port_write ''AT+CUSD=1,"*111#"'', Port_read 200]
   \<and> map_option modem_connected (run_body unplugged initial) = Some False
   \<and> map_option stop_running (run_body unplugged initial) = Some False
   \<and> map_option trace (Option.bind (run_body unplugged initial) (run_body unplugged)) =
     Some [Sleep 1000, Serial_open, Port_write ''AT'', Port_write ''ATE0'',
           Port_write ''AT+CMGF=1'', Port_write ''AT+CNMI=1,2,0,0,0'',
           Port_write ''AT+CUSD=1,"*111#"'', Port_read 200,
           Sleep 1000, Serial_open, Port_read 200]\<close>
  by code_simp

subsection \<open>Stopping\<close>

lemma stop_without_port:
  "port s = None \<Longrightarrow> stop s = (Inl AttributeError, s\<lparr>stop_running := True\<rparr>)"
  by (simp add: stop_def)

lemma stop_sets_flag: "stop_running (snd (stop s))"
  by (simp add: stop_def Let_def emit_def split: option.splits)

text \<open>
  C10. On an object whose port was never opened, \<open>stop\<close> sets the stop flag and then
  fails: closing the port is an \<open>AttributeError\<close>, since \<open>port\<close> is still \<open>None\<close>.
\<close>

theorem stop_before_open_raises:
  "stop initial = (Inl AttributeError, initial\<lparr>stop_running := True\<rparr>)"
  by (simp add: stop_def initial_def)


end
